theory Spec2Isabelle
  imports Complex_Main "HOL-Library.Log_Nat"
begin

section \<open>The falling-cubes scene of \<^verbatim>\<open>src/App.tsx\<close>\<close>

text \<open>
  The application has three pieces of logic of its own: \<^verbatim>\<open>FPSTracker.update\<close>,
  the spawner \<^verbatim>\<open>spawnCube\<close> and the per-frame callback \<^verbatim>\<open>frame\<close>. They are
  embedded below as functions on an explicit state.

  Numbers: a JavaScript \<^verbatim>\<open>number\<close> is a binary64 value. It is held here as the
  \<^typ>\<open>real\<close> it denotes, and every \<^verbatim>\<open>+\<close>, \<^verbatim>\<open>-\<close>, \<^verbatim>\<open>*\<close> and \<^verbatim>\<open>/\<close> of the source
  rounds its exact result to the nearest binary64 value, ties to even. Comparisons are
  exact. The frame counter is a \<^typ>\<open>nat\<close> and the rounded rate an \<^typ>\<open>int\<close>. There is no
  \<^verbatim>\<open>Infinity\<close> and no \<^verbatim>\<open>NaN\<close>: the model follows the code as long as no result
  overflows, no divisor is 0 and the frame counter stays below \<open>2\<^sup>5\<^sup>3\<close>, which is so for
  timestamps of magnitude up to \<open>2\<^sup>5\<^sup>3\<close> ms and for every accumulator short of the largest
  binary64 value.

  Collaborators: \<^verbatim>\<open>performance.now()\<close>, \<^verbatim>\<open>clock.getDelta()\<close> and
  \<^verbatim>\<open>Math.random()\<close> are inputs of the functions that read them. The physics
  engine's \<^verbatim>\<open>world.step()\<close> is a parameter \<open>wstep\<close>: nothing is assumed about it.
  The lights, the camera and the resize handler take no part in the three functions and
  are left out.
\<close>

subsection \<open>Binary floating point\<close>

text \<open>Rounding to the nearest integer, a tie going to the even one.\<close>

definition round_even :: "real \<Rightarrow> int" where
  "round_even y =
     (let f = \<lfloor>y\<rfloor>; r = y - of_int f
      in if r < 1 / 2 then f else if r > 1 / 2 then f + 1 else if even f then f else f + 1)"

text \<open>
  Rounding to the format with \<open>p\<close> significant bits whose least subnormal is
  \<open>2 powi emin\<close>. The bit length of \<open>\<bar>x\<bar>\<close> counted in units of \<open>2 powi emin\<close> gives the
  exponent \<open>e\<close> of the last place of \<open>x\<close>; below the normal range it stays at \<open>emin\<close>.
\<close>

definition round_to :: "nat \<Rightarrow> int \<Rightarrow> real \<Rightarrow> real" where
  "round_to p emin x =
     (let e = max (bitlen \<lfloor>\<bar>x\<bar> * 2 powi (- emin)\<rfloor> - int p + emin) emin
      in of_int (round_even (x / 2 powi e)) * 2 powi e)"

text \<open>binary64, the format of a JavaScript number.\<close>

definition rnd64 :: "real \<Rightarrow> real" where
  "rnd64 x = round_to 53 (- 1074) x"

text \<open>binary32, the format in which the physics engine keeps its scalars.\<close>

definition rnd32 :: "real \<Rightarrow> real" where
  "rnd32 x = round_to 24 (- 149) x"

text \<open>The four operators of the source on two binary64 values.\<close>

definition add64 :: "real \<Rightarrow> real \<Rightarrow> real" where
  "add64 a b = rnd64 (a + b)"

definition sub64 :: "real \<Rightarrow> real \<Rightarrow> real" where
  "sub64 a b = rnd64 (a - b)"

definition mul64 :: "real \<Rightarrow> real \<Rightarrow> real" where
  "mul64 a b = rnd64 (a * b)"

definition div64 :: "real \<Rightarrow> real \<Rightarrow> real" where
  "div64 a b = rnd64 (a / b)"

subsection \<open>Data\<close>

type_synonym vec3 = "real \<times> real \<times> real"

type_synonym quat = "real \<times> real \<times> real \<times> real"

text \<open>A \<^verbatim>\<open>THREE.Mesh\<close>: box dimensions, colour, transform and the two shadow flags.\<close>

record mesh3d =
  geometry :: vec3
  color :: vec3
  position :: vec3
  quaternion :: quat
  castShadow :: bool
  receiveShadow :: bool

datatype body_kind = Fixed | Dynamic

text \<open>A rigid body as the physics world holds it.\<close>

record rigid_body =
  kind :: body_kind
  translation :: vec3
  rotation :: quat

record collider =
  half_extents :: vec3
  parent :: nat
  restitution :: real
  friction :: real

text \<open>
  The physics world: a store of bodies addressed by handle, the number of handles given
  out so far, and the colliders in creation order.
\<close>

record world =
  bodies :: "nat \<Rightarrow> rigid_body"
  body_count :: nat
  colliders :: "collider list"

text \<open>\<^verbatim>\<open>class FPSTracker\<close>.\<close>

record FPSTracker =
  fps :: int
  frameCount :: nat
  lastTime :: real

text \<open>An element of \<^verbatim>\<open>cubes\<close>: a reference to a mesh and a handle of a rigid body.\<close>

record cube =
  mesh :: nat
  rigidBody :: nat

text \<open>
  Every call into the renderer or the physics world that has an effect, in the order in
  which it is made.
\<close>

datatype call =
    SceneAdd nat
  | CreateRigidBody nat
  | CreateCollider nat
  | WorldStep
  | CopyPosition nat nat
  | CopyQuaternion nat nat
  | Render

text \<open>
  The variables that the closures of \<^verbatim>\<open>useEffect\<close> share. Mesh objects live in a
  store addressed by reference, because the scene and \<^verbatim>\<open>cubes\<close> hold the same objects.
  \<open>canvas\<close> is what the last \<^verbatim>\<open>renderer.render\<close> drew: the meshes of the scene as they
  were at that call. \<open>ui_fps\<close> and \<open>cubesAmount\<close> are the two React state values.
\<close>

record state =
  meshes :: "nat \<Rightarrow> mesh3d"
  mesh_count :: nat
  scene :: "nat list"
  world :: world
  cubes :: "cube list"
  fpsTracker :: FPSTracker
  accumulator :: real
  ui_fps :: int
  cubesAmount :: nat
  canvas :: "mesh3d list"
  calls :: "call list"

subsection \<open>The FPS tracker\<close>

text \<open>
  \<^verbatim>\<open>update()\<close>, with \<open>currentTime\<close> the value of \<^verbatim>\<open>performance.now()\<close>. It returns
  the rate and the tracker as the call leaves it. \<^verbatim>\<open>Math.round\<close> is exact and rounds
  halves upwards, as \<^const>\<open>round\<close> does.
\<close>

definition update :: "real \<Rightarrow> FPSTracker \<Rightarrow> int \<times> FPSTracker" where
  "update currentTime t =
     (let t1 = t\<lparr>frameCount := frameCount t + 1\<rparr>;
          t2 = (if currentTime \<ge> add64 (lastTime t1) 500
                then t1\<lparr>fps := round (div64 (mul64 (real (frameCount t1)) 1000)
                                          (sub64 currentTime (lastTime t1))),
                        frameCount := 0,
                        lastTime := currentTime\<rparr>
                else t1)
      in (fps t2, t2))"

text \<open>Calling \<open>update\<close> at each of a list of times, collecting what the calls return.\<close>

fun updates :: "real list \<Rightarrow> FPSTracker \<Rightarrow> int list \<times> FPSTracker" where
  "updates [] t = ([], t)"
| "updates (now # nows) t =
     (let (r, t1) = update now t; (rs, t2) = updates nows t1 in (r # rs, t2))"

subsection \<open>The physics world's constructors\<close>

text \<open>The engine takes binary64 arguments and keeps them as binary32.\<close>

definition f32_vec3 :: "vec3 \<Rightarrow> vec3" where
  "f32_vec3 v = (case v of (x, y, z) \<Rightarrow> (rnd32 x, rnd32 y, rnd32 z))"

definition f32_quat :: "quat \<Rightarrow> quat" where
  "f32_quat q = (case q of (x, y, z, w) \<Rightarrow> (rnd32 x, rnd32 y, rnd32 z, rnd32 w))"

text \<open>\<^verbatim>\<open>world.createRigidBody(desc)\<close>: the new body gets the next handle.\<close>

definition createRigidBody :: "rigid_body \<Rightarrow> world \<Rightarrow> nat \<times> world" where
  "createRigidBody desc w =
     (body_count w,
      w\<lparr>bodies := (bodies w)(body_count w :=
           desc\<lparr>translation := f32_vec3 (translation desc), rotation := f32_quat (rotation desc)\<rparr>),
        body_count := body_count w + 1\<rparr>)"

text \<open>\<^verbatim>\<open>world.createCollider(desc, body)\<close>: returns the index of the new collider.\<close>

definition createCollider :: "collider \<Rightarrow> world \<Rightarrow> nat \<times> world" where
  "createCollider desc w =
     (length (colliders w),
      w\<lparr>colliders := colliders w @
           [desc\<lparr>half_extents := f32_vec3 (half_extents desc),
                 restitution := rnd32 (restitution desc),
                 friction := rnd32 (friction desc)\<rparr>]\<rparr>)"

definition setRestitution :: "nat \<Rightarrow> real \<Rightarrow> world \<Rightarrow> world" where
  "setRestitution c r w =
     (if c < length (colliders w)
      then w\<lparr>colliders := (colliders w)[c := (colliders w ! c)\<lparr>restitution := rnd32 r\<rparr>]\<rparr> else w)"

definition setFriction :: "nat \<Rightarrow> real \<Rightarrow> world \<Rightarrow> world" where
  "setFriction c f w =
     (if c < length (colliders w)
      then w\<lparr>colliders := (colliders w)[c := (colliders w ! c)\<lparr>friction := rnd32 f\<rparr>]\<rparr> else w)"

text \<open>\<^verbatim>\<open>RigidBodyDesc.fixed()\<close> and \<^verbatim>\<open>.dynamic()\<close> with \<^verbatim>\<open>setTranslation\<close>.\<close>

definition body_desc :: "body_kind \<Rightarrow> vec3 \<Rightarrow> rigid_body" where
  "body_desc k p = \<lparr>kind = k, translation = p, rotation = (0, 0, 0, 1)\<rparr>"

text \<open>\<^verbatim>\<open>ColliderDesc.cuboid(hx, hy, hz)\<close> attached to a body, with the engine's defaults.\<close>

definition cuboid :: "vec3 \<Rightarrow> nat \<Rightarrow> collider" where
  "cuboid h b = \<lparr>half_extents = h, parent = b, restitution = 0, friction = 1 / 2\<rparr>"

text \<open>\<^verbatim>\<open>new THREE.Mesh(geometry, material)\<close>.\<close>

definition new_mesh :: "vec3 \<Rightarrow> vec3 \<Rightarrow> mesh3d" where
  "new_mesh g c =
     \<lparr>geometry = g, color = c, position = (0, 0, 0), quaternion = (0, 0, 0, 1),
      castShadow = False, receiveShadow = False\<rparr>"

subsection \<open>The scene at the end of the set-up\<close>

definition cubeGeometry :: vec3 where
  "cubeGeometry = (2, 2, 2)"

definition cubeMaterial :: vec3 where
  "cubeMaterial = (1, 1 / 10, 1 / 10)"

text \<open>The literal \<^verbatim>\<open>0.016\<close> denotes the binary64 value nearest to it.\<close>

definition fixedTimestep :: real where
  "fixedTimestep = rnd64 (16 / 1000)"

text \<open>
  The state when \<^verbatim>\<open>setAnimationLoop\<close> is reached: the ground mesh and its fixed body
  with one collider, no cubes, accumulator 0. \<open>t0\<close> is \<^verbatim>\<open>performance.now()\<close> at the
  construction of the tracker.
\<close>

definition init :: "real \<Rightarrow> state" where
  "init t0 =
     (let ground = (new_mesh (50, 2, 50) (1 / 5, 1, 1 / 5))\<lparr>receiveShadow := True\<rparr>;
          w0 = \<lparr>bodies = (\<lambda>_. body_desc Fixed (0, 0, 0)), body_count = 0, colliders = []\<rparr>;
          (groundBody, w1) = createRigidBody (body_desc Fixed (0, 0, 0)) w0;
          (groundCollider, w2) = createCollider (cuboid (25, 1, 25) groundBody) w1
      in \<lparr>meshes = (\<lambda>_. new_mesh (0, 0, 0) (0, 0, 0))(0 := ground),
          mesh_count = 1,
          scene = [0],
          world = w2,
          cubes = [],
          fpsTracker = \<lparr>fps = 0, frameCount = 0, lastTime = t0\<rparr>,
          accumulator = 0,
          ui_fps = 0,
          cubesAmount = 0,
          canvas = [],
          calls = [SceneAdd 0, CreateRigidBody groundBody, CreateCollider groundCollider]\<rparr>)"

subsection \<open>The spawner\<close>

text \<open>
  \<^verbatim>\<open>spawnCube()\<close>; \<open>r1\<close> and \<open>r2\<close> are the two values of \<^verbatim>\<open>Math.random()\<close>.
\<close>

definition spawnCube :: "real \<Rightarrow> real \<Rightarrow> state \<Rightarrow> state" where
  "spawnCube r1 r2 st =
     (if fps (fpsTracker st) > 50 then
        let cube = mesh_count st;
            m = (new_mesh cubeGeometry cubeMaterial)\<lparr>castShadow := True, receiveShadow := True\<rparr>;
            rigidBodyDesc = body_desc Dynamic (mul64 r1 3, 15, mul64 r2 3);
            (rigidBody, w1) = createRigidBody rigidBodyDesc (world st);
            (cubeCollider, w2) = createCollider (cuboid (1, 1, 1) rigidBody) w1;
            w3 = setRestitution cubeCollider (1 / 2) w2;
            w4 = setFriction cubeCollider (1 / 2) w3;
            cubes1 = cubes st @ [\<lparr>mesh = cube, rigidBody = rigidBody\<rparr>]
        in st\<lparr>meshes := (meshes st)(cube := m),
              mesh_count := mesh_count st + 1,
              scene := scene st @ [cube],
              world := w4,
              cubes := cubes1,
              cubesAmount := length cubes1,
              calls := calls st @ [SceneAdd cube, CreateRigidBody rigidBody, CreateCollider cubeCollider]\<rparr>
      else st)"

subsection \<open>The frame callback\<close>

text \<open>
  The \<^verbatim>\<open>while\<close> loop of \<^verbatim>\<open>frame\<close>, entered with the local counter at \<open>steps\<close>. The
  counter is dead after the loop, so the loop returns the state only; the steps it makes
  are in \<open>calls\<close>.
\<close>

function stepping :: "(world \<Rightarrow> world) \<Rightarrow> nat \<Rightarrow> state \<Rightarrow> state" where
  "stepping wstep steps st =
     (if accumulator st \<ge> fixedTimestep \<and> steps < 5
      then stepping wstep (steps + 1)
             (st\<lparr>world := wstep (world st),
                 accumulator := sub64 (accumulator st) fixedTimestep,
                 calls := calls st @ [WorldStep]\<rparr>)
      else st)"
  by pat_completeness auto
termination
  by (relation "measure (\<lambda>(wstep, steps, st). 5 - steps)") auto

declare stepping.simps [simp del]

text \<open>The body of the \<^verbatim>\<open>forEach\<close> callback: two copies onto the mesh of one pair.\<close>

definition sync_cube :: "cube \<Rightarrow> state \<Rightarrow> state" where
  "sync_cube c st =
     (let st1 = st\<lparr>meshes := (meshes st)(mesh c :=
                     (meshes st (mesh c))\<lparr>position := translation (bodies (world st) (rigidBody c))\<rparr>),
                   calls := calls st @ [CopyPosition (mesh c) (rigidBody c)]\<rparr>
      in st1\<lparr>meshes := (meshes st1)(mesh c :=
                 (meshes st1 (mesh c))\<lparr>quaternion := rotation (bodies (world st1) (rigidBody c))\<rparr>),
              calls := calls st1 @ [CopyQuaternion (mesh c) (rigidBody c)]\<rparr>)"

text \<open>\<^verbatim>\<open>cubes.forEach(...)\<close>: the visual-transform sync.\<close>

definition sync :: "state \<Rightarrow> state" where
  "sync st = fold sync_cube (cubes st) st"

text \<open>\<^verbatim>\<open>renderer.render(scene, camera.camera)\<close>.\<close>

definition render :: "state \<Rightarrow> state" where
  "render st = st\<lparr>canvas := map (meshes st) (scene st), calls := calls st @ [Render]\<rparr>"

text \<open>
  \<^verbatim>\<open>frame()\<close>; \<open>delta\<close> is the value of \<^verbatim>\<open>clock.getDelta()\<close> and \<open>now\<close> the value of
  \<^verbatim>\<open>performance.now()\<close> read by the tracker.
\<close>

definition frame :: "(world \<Rightarrow> world) \<Rightarrow> real \<Rightarrow> real \<Rightarrow> state \<Rightarrow> state" where
  "frame wstep delta now st =
     (let st1 = st\<lparr>accumulator := add64 (accumulator st) delta\<rparr>;
          (est, tracker) = update now (fpsTracker st1);
          st2 = st1\<lparr>fpsTracker := tracker, ui_fps := est\<rparr>;
          st3 = stepping wstep 0 st2;
          st4 = sync st3
      in render st4)"

subsection \<open>Runs of the two callbacks\<close>

text \<open>
  The scheduler runs one callback to completion before the next: a run is a list of
  invocations, each with the values it reads from its collaborators.
\<close>

datatype event = Frame real real | Spawn real real

fun fire :: "(world \<Rightarrow> world) \<Rightarrow> event \<Rightarrow> state \<Rightarrow> state" where
  "fire wstep (Frame delta now) st = frame wstep delta now st"
| "fire wstep (Spawn r1 r2) st = spawnCube r1 r2 st"

definition run :: "(world \<Rightarrow> world) \<Rightarrow> event list \<Rightarrow> state \<Rightarrow> state" where
  "run wstep evs st = fold (fire wstep) evs st"

text \<open>The elapsed-time sample an invocation adds to the accumulator.\<close>

fun sample :: "event \<Rightarrow> real" where
  "sample (Frame delta now) = delta"
| "sample (Spawn r1 r2) = 0"

text \<open>The number of \<^verbatim>\<open>world.step()\<close> calls made so far.\<close>

definition world_steps :: "state \<Rightarrow> nat" where
  "world_steps st = count_list (calls st) WorldStep"

text \<open>
  The whole steps that the accumulator still holds: the steps that the cap of five per
  frame has kept back and that no later frame has made up for.
\<close>

definition backlog :: "state \<Rightarrow> int" where
  "backlog st = \<lfloor>accumulator st / fixedTimestep\<rfloor>"

text \<open>
  An invocation hits the cap when its loop ends by \<^verbatim>\<open>steps < 5\<close>: it has made five
  steps and the accumulator still holds a whole step.
\<close>

definition cap_hit :: "(world \<Rightarrow> world) \<Rightarrow> event \<Rightarrow> state \<Rightarrow> bool" where
  "cap_hit wstep e st \<longleftrightarrow>
     world_steps (fire wstep e st) = world_steps st + 5
     \<and> fixedTimestep \<le> accumulator (fire wstep e st)"

subsection \<open>Notions used in the statements and proofs\<close>

text \<open>
  The loop of \<open>frame\<close> seen from the accumulator alone: the number of steps it makes
  when entered with the counter at \<open>steps\<close> and the accumulator at \<open>a\<close>, and the
  accumulator it leaves.
\<close>

function steps_due :: "nat \<Rightarrow> real \<Rightarrow> nat" where
  "steps_due steps a =
     (if a \<ge> fixedTimestep \<and> steps < 5
      then Suc (steps_due (steps + 1) (sub64 a fixedTimestep)) else 0)"
  by pat_completeness auto
termination
  by (relation "measure (\<lambda>(steps, a). 5 - steps)") auto

declare steps_due.simps [simp del]

function acc_left :: "nat \<Rightarrow> real \<Rightarrow> real" where
  "acc_left steps a =
     (if a \<ge> fixedTimestep \<and> steps < 5
      then acc_left (steps + 1) (sub64 a fixedTimestep) else a)"
  by pat_completeness auto
termination
  by (relation "measure (\<lambda>(steps, a). 5 - steps)") auto

declare acc_left.simps [simp del]

definition synced :: "world \<Rightarrow> cube \<Rightarrow> mesh3d \<Rightarrow> mesh3d" where
  "synced w c m =
     m\<lparr>position := translation (bodies w (rigidBody c)),
       quaternion := rotation (bodies w (rigidBody c))\<rparr>"

definition sync_meshes :: "world \<Rightarrow> cube list \<Rightarrow> (nat \<Rightarrow> mesh3d) \<Rightarrow> (nat \<Rightarrow> mesh3d)" where
  "sync_meshes w cs ms = fold (\<lambda>c ms. ms(mesh c := synced w c (ms (mesh c)))) cs ms"

definition sync_calls :: "cube list \<Rightarrow> call list" where
  "sync_calls cs =
     concat (map (\<lambda>c. [CopyPosition (mesh c) (rigidBody c), CopyQuaternion (mesh c) (rigidBody c)]) cs)"

text \<open>
  The references held in \<open>cubes\<close> are in order: every mesh and every body of a pair
  has been given out, and no mesh and no body belongs to two pairs.
\<close>

definition mesh_refs_ok :: "state \<Rightarrow> bool" where
  "mesh_refs_ok st \<longleftrightarrow>
     distinct (map mesh (cubes st)) \<and> (\<forall>c \<in> set (cubes st). mesh c < mesh_count st)"

definition body_refs_ok :: "state \<Rightarrow> bool" where
  "body_refs_ok st \<longleftrightarrow>
     distinct (map rigidBody (cubes st))
     \<and> (\<forall>c \<in> set (cubes st). rigidBody c < body_count (world st))"

text \<open>A run of frames only, from the samples and timestamps they read.\<close>

definition frames :: "(real \<times> real) list \<Rightarrow> event list" where
  "frames fs = map (\<lambda>(delta, now). Frame delta now) fs"

text \<open>
  The unit roundoff of binary64 and half its least subnormal: a rounding moves \<open>x\<close> by
  at most \<open>u64 * \<bar>x\<bar> + tiny64\<close> (lemma \<open>rnd64_err\<close>).
\<close>

definition u64 :: real where
  "u64 = 2 powi (- 53)"

definition tiny64 :: real where
  "tiny64 = 2 powi (- 1075)"

section \<open>Lemmas\<close>

subsection \<open>Rounding\<close>

lemma round_even_nonneg: "0 \<le> y \<Longrightarrow> 0 \<le> round_even y"
  by (auto simp: round_even_def Let_def)

lemma round_to_nonneg: "0 \<le> x \<Longrightarrow> 0 \<le> round_to p emin x"
  by (simp add: round_to_def Let_def round_even_nonneg)

lemma rnd64_nonneg: "0 \<le> x \<Longrightarrow> 0 \<le> rnd64 x"
  by (simp add: rnd64_def round_to_nonneg)

lemma bitlen_unique:
  assumes "2 ^ K \<le> n" and "n < 2 ^ (K + 1)"
  shows "bitlen n = int K + 1"
proof (rule antisym)
  show "bitlen n \<le> int K + 1"
    using assms(2) by (simp add: bitlen_le_iff_power nat_add_distrib)
  show "int K + 1 \<le> bitlen n"
    using assms(1) by (simp add: bitlen_ge_iff_power nat_add_distrib)
qed

lemma scaled_floor_bitlen:
  assumes "2 powi k \<le> \<bar>x :: real\<bar>" and "\<bar>x\<bar> < 2 powi (k + 1)" and "emin \<le> k"
  shows "bitlen \<lfloor>\<bar>x\<bar> * 2 powi (- emin)\<rfloor> = k - emin + 1"
proof -
  let ?K = "nat (k - emin)"
  let ?y = "\<bar>x\<bar> * 2 powi (- emin)"
  have p: "(0::real) < 2 powi (- emin)"
    by simp
  have e1: "(2::real) powi k * 2 powi (- emin) = 2 ^ ?K"
  proof -
    have "(2::real) powi (k + (- emin)) = 2 powi k * 2 powi (- emin)"
      by (rule power_int_add) simp
    moreover have "(2::real) powi (k + (- emin)) = 2 ^ ?K"
      using assms(3) by (simp add: power_int_def)
    ultimately show ?thesis by simp
  qed
  have e2: "(2::real) powi (k + 1) * 2 powi (- emin) = 2 ^ (?K + 1)"
  proof -
    have "(2::real) powi (k + 1 + (- emin)) = 2 powi (k + 1) * 2 powi (- emin)"
      by (rule power_int_add) simp
    moreover have "k + 1 + (- emin) = int (?K + 1)"
      using assms(3) by simp
    then have "(2::real) powi (k + 1 + (- emin)) = 2 ^ (?K + 1)"
      by (simp only: power_int_of_nat)
    ultimately show ?thesis by simp
  qed
  have "2 powi k * 2 powi (- emin) \<le> ?y"
    using assms(1) p by simp
  then have lo: "(2::real) ^ ?K \<le> ?y"
    by (simp only: e1)
  have "?y < 2 powi (k + 1) * 2 powi (- emin)"
    using assms(2) p by simp
  then have hi: "?y < (2::real) ^ (?K + 1)"
    by (simp only: e2)
  have "of_int (2 ^ ?K) \<le> ?y"
    using lo by simp
  then have 1: "2 ^ ?K \<le> \<lfloor>?y\<rfloor>"
    by (simp only: le_floor_iff)
  have "?y < of_int (2 ^ (?K + 1))"
    using hi by simp
  then have 2: "\<lfloor>?y\<rfloor> < 2 ^ (?K + 1)"
    by (simp only: floor_less_iff)
  have "bitlen \<lfloor>?y\<rfloor> = int ?K + 1"
    using 1 2 by (rule bitlen_unique)
  then show ?thesis
    using assms(3) by simp
qed

text \<open>
  How a rounding is computed once the binade of \<open>x\<close> is known: \<open>x\<close> lies in
  \<open>[2 powi k, 2 powi (k + 1))\<close> and is normal, so its last place is \<open>2 powi (k + 1 - p)\<close>.
\<close>

lemma round_to_eqI:
  assumes "2 powi k \<le> \<bar>x\<bar>" and "\<bar>x\<bar> < 2 powi (k + 1)" and "emin + int p \<le> k + 1"
    and "0 < p"
    and "round_even (x / 2 powi (k + 1 - int p)) = m"
    and "y = of_int m * 2 powi (k + 1 - int p)"
  shows "round_to p emin x = y"
proof -
  have "emin \<le> k"
    using assms(3,4) by simp
  then have "bitlen \<lfloor>\<bar>x\<bar> * 2 powi (- emin)\<rfloor> = k - emin + 1"
    using assms(1,2) by (intro scaled_floor_bitlen)
  then have "max (bitlen \<lfloor>\<bar>x\<bar> * 2 powi (- emin)\<rfloor> - int p + emin) emin = k + 1 - int p"
    using assms(3) by simp
  then show ?thesis
    by (simp add: round_to_def Let_def assms(5,6))
qed

lemma rnd64_0: "rnd64 0 = 0"
  by (simp add: rnd64_def round_to_def Let_def round_even_def)

lemma rnd32_0: "rnd32 0 = 0"
  by (simp add: rnd32_def round_to_def Let_def round_even_def)

lemma fixedTimestep_val: "fixedTimestep = 1152921504606847 / 72057594037927936"
  unfolding fixedTimestep_def rnd64_def
  by (rule round_to_eqI [where k = "-6" and m = 4611686018427388]) (simp_all add: round_even_def)

lemma fixedTimestep_pos: "0 < fixedTimestep"
  by (simp add: fixedTimestep_val)

lemma add64_nonneg: "0 \<le> a \<Longrightarrow> 0 \<le> b \<Longrightarrow> 0 \<le> add64 a b"
  by (simp add: add64_def rnd64_nonneg)

lemma sub64_nonneg: "b \<le> a \<Longrightarrow> 0 \<le> sub64 a b"
  by (simp add: sub64_def rnd64_nonneg)

subsection \<open>The loop\<close>

lemma steps_due_le: "steps_due steps a \<le> 5 - steps"
proof (induction steps a rule: steps_due.induct)
  case (1 steps a)
  show ?case
  proof (cases "a \<ge> fixedTimestep \<and> steps < 5")
    case True
    then have "steps_due steps a = Suc (steps_due (steps + 1) (sub64 a fixedTimestep))"
      by (subst steps_due.simps) simp
    moreover have "steps_due (steps + 1) (sub64 a fixedTimestep) \<le> 5 - (steps + 1)"
      using True by (intro "1.IH") simp
    ultimately show ?thesis
      using True by linarith
  next
    case False
    then have "steps_due steps a = 0"
      by (subst steps_due.simps) auto
    then show ?thesis by simp
  qed
qed

lemma acc_left_nonneg: "0 \<le> a \<Longrightarrow> 0 \<le> acc_left steps a"
proof (induction steps a rule: acc_left.induct)
  case (1 steps a)
  show ?case
  proof (cases "a \<ge> fixedTimestep \<and> steps < 5")
    case True
    then have "acc_left steps a = acc_left (steps + 1) (sub64 a fixedTimestep)"
      by (subst acc_left.simps) simp
    moreover have "0 \<le> sub64 a fixedTimestep"
      using True by (simp add: sub64_nonneg)
    ultimately show ?thesis
      using True "1.IH" by simp
  next
    case False
    then have "acc_left steps a = a"
      by (subst acc_left.simps) auto
    then show ?thesis using "1.prems" by simp
  qed
qed

lemma acc_left_uncapped: "steps_due steps a < 5 - steps \<Longrightarrow> acc_left steps a < fixedTimestep"
proof (induction steps a rule: acc_left.induct)
  case (1 steps a)
  show ?case
  proof (cases "a \<ge> fixedTimestep \<and> steps < 5")
    case True
    then have s: "steps_due steps a = Suc (steps_due (steps + 1) (sub64 a fixedTimestep))"
      by (subst steps_due.simps) simp
    have a: "acc_left steps a = acc_left (steps + 1) (sub64 a fixedTimestep)"
      using True by (subst acc_left.simps) simp
    have "steps_due (steps + 1) (sub64 a fixedTimestep) < 5 - (steps + 1)"
      using "1.prems" s by simp
    then have "acc_left (steps + 1) (sub64 a fixedTimestep) < fixedTimestep"
      using True by (intro "1.IH") simp_all
    then show ?thesis by (simp only: a)
  next
    case False
    then have "acc_left steps a = a"
      by (subst acc_left.simps) auto
    moreover have "steps < 5"
      using "1.prems" by simp
    ultimately show ?thesis
      using False by simp
  qed
qed

lemma stepping_closed:
  "stepping wstep steps st =
     st\<lparr>world := (wstep ^^ steps_due steps (accumulator st)) (world st),
        accumulator := acc_left steps (accumulator st),
        calls := calls st @ replicate (steps_due steps (accumulator st)) WorldStep\<rparr>"
proof (induction wstep steps st rule: stepping.induct)
  case (1 wstep steps st)
  show ?case
  proof (cases "accumulator st \<ge> fixedTimestep \<and> steps < 5")
    case True
    let ?a = "sub64 (accumulator st) fixedTimestep"
    let ?n = "steps_due (steps + 1) ?a"
    have n: "steps_due steps (accumulator st) = Suc ?n"
      using True by (subst steps_due.simps) simp
    have a: "acc_left steps (accumulator st) = acc_left (steps + 1) ?a"
      using True by (subst acc_left.simps) simp
    have "stepping wstep steps st = stepping wstep (steps + 1)
             (st\<lparr>world := wstep (world st),
                 accumulator := ?a,
                 calls := calls st @ [WorldStep]\<rparr>)"
      using True by (subst stepping.simps) simp
    also have "\<dots> = st\<lparr>world := (wstep ^^ ?n) (wstep (world st)),
        accumulator := acc_left (steps + 1) ?a,
        calls := (calls st @ [WorldStep]) @ replicate ?n WorldStep\<rparr>"
      using True by (subst "1.IH") simp_all
    also have "\<dots> = st\<lparr>world := (wstep ^^ Suc ?n) (world st),
        accumulator := acc_left (steps + 1) ?a,
        calls := calls st @ replicate (Suc ?n) WorldStep\<rparr>"
      by (simp add: funpow_swap1 replicate_append_same)
    finally show ?thesis by (simp only: n a)
  next
    case False
    then have "steps_due steps (accumulator st) = 0"
      by (subst steps_due.simps) auto
    moreover have "acc_left steps (accumulator st) = accumulator st"
      using False by (subst acc_left.simps) auto
    moreover have "stepping wstep steps st = st"
      using False by (subst stepping.simps) auto
    ultimately show ?thesis by simp
  qed
qed

subsection \<open>The sync\<close>

lemma sync_cube_closed:
  "sync_cube c st =
     st\<lparr>meshes := (meshes st)(mesh c := synced (world st) c (meshes st (mesh c))),
        calls := calls st @ [CopyPosition (mesh c) (rigidBody c), CopyQuaternion (mesh c) (rigidBody c)]\<rparr>"
  by (simp add: sync_cube_def synced_def Let_def)

lemma fold_sync_cube:
  "fold sync_cube cs st =
     st\<lparr>meshes := sync_meshes (world st) cs (meshes st), calls := calls st @ sync_calls cs\<rparr>"
proof (induction cs arbitrary: st)
  case Nil
  show ?case by (simp add: sync_meshes_def sync_calls_def)
next
  case (Cons c cs)
  have "fold sync_cube (c # cs) st = fold sync_cube cs (sync_cube c st)"
    by simp
  also have "\<dots> = (sync_cube c st)\<lparr>meshes := sync_meshes (world (sync_cube c st)) cs (meshes (sync_cube c st)),
                 calls := calls (sync_cube c st) @ sync_calls cs\<rparr>"
    by (rule Cons.IH)
  also have "\<dots> = st\<lparr>meshes := sync_meshes (world st) (c # cs) (meshes st),
                 calls := calls st @ sync_calls (c # cs)\<rparr>"
    by (simp add: sync_cube_closed sync_meshes_def sync_calls_def)
  finally show ?case .
qed

lemma sync_closed:
  "sync st = st\<lparr>meshes := sync_meshes (world st) (cubes st) (meshes st),
                calls := calls st @ sync_calls (cubes st)\<rparr>"
  by (simp add: sync_def fold_sync_cube)

lemma synced_synced: "synced w c (synced w c' m) = synced w c m"
  by (simp add: synced_def)

lemma sync_meshes_snoc:
  "sync_meshes w (cs @ [c]) ms =
     (sync_meshes w cs ms)(mesh c := synced w c (sync_meshes w cs ms (mesh c)))"
  by (simp add: sync_meshes_def)

lemma sync_meshes_apply:
  "sync_meshes w cs ms r =
     (case find (\<lambda>c. mesh c = r) (rev cs) of None \<Rightarrow> ms r | Some c \<Rightarrow> synced w c (ms r))"
proof (induction cs rule: rev_induct)
  case Nil
  show ?case by (simp add: sync_meshes_def)
next
  case (snoc c cs)
  show ?case
  proof (cases "mesh c = r")
    case True
    then show ?thesis
      using snoc.IH by (simp add: sync_meshes_snoc synced_synced split: option.splits)
  next
    case False
    then show ?thesis
      using snoc.IH by (simp add: sync_meshes_snoc)
  qed
qed

lemma sync_meshes_idem: "sync_meshes w cs (sync_meshes w cs ms) = sync_meshes w cs ms"
proof
  fix r
  show "sync_meshes w cs (sync_meshes w cs ms) r = sync_meshes w cs ms r"
    by (simp add: sync_meshes_apply [of w cs _ r] synced_synced split: option.splits)
qed

lemma find_last_distinct:
  "distinct (map mesh cs) \<Longrightarrow> c \<in> set cs \<Longrightarrow> find (\<lambda>c'. mesh c' = mesh c) (rev cs) = Some c"
proof (induction cs rule: rev_induct)
  case Nil
  then show ?case by simp
next
  case (snoc x xs)
  then show ?case by (auto simp: image_iff)
qed

lemma sync_meshes_distinct:
  "distinct (map mesh cs) \<Longrightarrow> c \<in> set cs \<Longrightarrow> sync_meshes w cs ms (mesh c) = synced w c (ms (mesh c))"
  by (simp add: sync_meshes_apply find_last_distinct)

lemma count_sync_calls: "count_list (sync_calls cs) WorldStep = 0"
  by (induction cs) (simp_all add: sync_calls_def)

subsection \<open>One frame, one spawner tick\<close>

lemma frame_closed:
  "frame wstep delta now st =
     (let a = add64 (accumulator st) delta;
          n = steps_due 0 a;
          w = (wstep ^^ n) (world st);
          ms = sync_meshes w (cubes st) (meshes st)
      in st\<lparr>meshes := ms,
            world := w,
            fpsTracker := snd (update now (fpsTracker st)),
            accumulator := acc_left 0 a,
            ui_fps := fst (update now (fpsTracker st)),
            canvas := map ms (scene st),
            calls := calls st @ replicate n WorldStep @ sync_calls (cubes st) @ [Render]\<rparr>)"
  by (simp add: frame_def Let_def split_beta stepping_closed sync_closed render_def)

lemma count_replicate_same: "count_list (replicate n x) x = n"
  by (induction n) simp_all

lemma world_steps_frame:
  "world_steps (frame wstep delta now st) =
     world_steps st + steps_due 0 (add64 (accumulator st) delta)"
  by (simp add: frame_closed world_steps_def Let_def count_sync_calls count_replicate_same)

lemma accumulator_frame:
  "accumulator (frame wstep delta now st) = acc_left 0 (add64 (accumulator st) delta)"
  by (simp add: frame_closed Let_def)

lemma world_frame:
  "world (frame wstep delta now st) =
     (wstep ^^ steps_due 0 (add64 (accumulator st) delta)) (world st)"
  by (simp add: frame_closed Let_def)

lemma run_snoc: "run wstep (evs @ [e]) st = fire wstep e (run wstep evs st)"
  by (simp add: run_def)

lemma run_append: "run wstep (evs @ evs') st = run wstep evs' (run wstep evs st)"
  by (simp add: run_def)

lemma cubes_frame: "cubes (frame wstep delta now st) = cubes st"
  by (simp add: frame_closed Let_def)

lemma cubesAmount_frame: "cubesAmount (frame wstep delta now st) = cubesAmount st"
  by (simp add: frame_closed Let_def)

lemma mesh_count_frame: "mesh_count (frame wstep delta now st) = mesh_count st"
  by (simp add: frame_closed Let_def)

lemma cubes_spawnCube:
  "cubes (spawnCube r1 r2 st) =
     cubes st @ (if 50 < fps (fpsTracker st)
                 then [\<lparr>mesh = mesh_count st, rigidBody = body_count (world st)\<rparr>] else [])"
  by (simp add: spawnCube_def Let_def createRigidBody_def createCollider_def)

lemma cubesAmount_spawnCube:
  "cubesAmount (spawnCube r1 r2 st) =
     (if 50 < fps (fpsTracker st) then length (cubes st) + 1 else cubesAmount st)"
  by (simp add: spawnCube_def Let_def createRigidBody_def createCollider_def)

lemma mesh_count_spawnCube:
  "mesh_count (spawnCube r1 r2 st) =
     (if 50 < fps (fpsTracker st) then mesh_count st + 1 else mesh_count st)"
  by (simp add: spawnCube_def Let_def createRigidBody_def createCollider_def)

lemma accumulator_spawnCube: "accumulator (spawnCube r1 r2 st) = accumulator st"
  by (simp add: spawnCube_def Let_def createRigidBody_def createCollider_def)

lemma world_steps_spawnCube: "world_steps (spawnCube r1 r2 st) = world_steps st"
  by (simp add: spawnCube_def world_steps_def Let_def createRigidBody_def createCollider_def)

lemma cubes_fire: "\<exists>added. cubes (fire wstep e st) = cubes st @ added"
  by (cases e) (simp_all add: cubes_frame cubes_spawnCube)

lemma cubes_run: "\<exists>added. cubes (run wstep evs st) = cubes st @ added"
proof (induction evs rule: rev_induct)
  case Nil
  show ?case by (simp add: run_def)
next
  case (snoc e evs)
  then obtain xs where xs: "cubes (run wstep evs st) = cubes st @ xs"
    by blast
  obtain ys where "cubes (fire wstep e (run wstep evs st)) = cubes (run wstep evs st) @ ys"
    using cubes_fire by blast
  then have "cubes (run wstep (evs @ [e]) st) = cubes st @ (xs @ ys)"
    by (simp add: run_snoc xs)
  then show ?case by blast
qed

lemma cubesAmount_fire:
  "cubesAmount st = length (cubes st) \<Longrightarrow>
     cubesAmount (fire wstep e st) = length (cubes (fire wstep e st))"
  by (cases e) (simp_all add: cubes_frame cubesAmount_frame cubes_spawnCube cubesAmount_spawnCube)

lemma cubesAmount_run:
  "cubesAmount st = length (cubes st) \<Longrightarrow>
     cubesAmount (run wstep evs st) = length (cubes (run wstep evs st))"
proof (induction evs rule: rev_induct)
  case Nil
  then show ?case by (simp add: run_def)
next
  case (snoc e evs)
  then show ?case by (simp add: run_snoc cubesAmount_fire)
qed

lemma cubesAmount_init: "cubesAmount (init t0) = length (cubes (init t0))"
  by (simp add: init_def Let_def split_beta)

lemma mesh_refs_ok_fire: "mesh_refs_ok st \<Longrightarrow> mesh_refs_ok (fire wstep e st)"
  by (cases e)
     (auto simp: mesh_refs_ok_def cubes_frame mesh_count_frame cubes_spawnCube mesh_count_spawnCube)

lemma mesh_refs_ok_run: "mesh_refs_ok st \<Longrightarrow> mesh_refs_ok (run wstep evs st)"
proof (induction evs rule: rev_induct)
  case Nil
  then show ?case by (simp add: run_def)
next
  case (snoc e evs)
  then show ?case by (simp add: run_snoc mesh_refs_ok_fire)
qed

lemma distinct_run_init: "distinct (map mesh (cubes (run wstep evs (init t0))))"
proof -
  have "mesh_refs_ok (init t0)"
    by (simp add: mesh_refs_ok_def init_def Let_def split_beta)
  then have "mesh_refs_ok (run wstep evs (init t0))"
    by (rule mesh_refs_ok_run)
  then show ?thesis by (simp add: mesh_refs_ok_def)
qed

lemma world_steps_fire_mono: "world_steps st \<le> world_steps (fire wstep e st)"
  by (cases e) (simp_all add: world_steps_frame world_steps_spawnCube)

lemma accumulator_fire_nonneg:
  "0 \<le> accumulator st \<Longrightarrow> 0 \<le> sample e \<Longrightarrow> 0 \<le> accumulator (fire wstep e st)"
proof (cases e)
  case (Frame delta now)
  assume "0 \<le> accumulator st" "0 \<le> sample e"
  then have "0 \<le> add64 (accumulator st) delta"
    using Frame by (simp add: add64_nonneg)
  then show ?thesis
    using Frame by (simp add: accumulator_frame acc_left_nonneg)
next
  case (Spawn r1 r2)
  assume "0 \<le> accumulator st"
  then show ?thesis using Spawn by (simp add: accumulator_spawnCube)
qed

lemma accumulator_fire_uncapped:
  "accumulator st < fixedTimestep \<Longrightarrow> \<not> cap_hit wstep e st \<Longrightarrow>
     accumulator (fire wstep e st) < fixedTimestep"
proof (cases e)
  case (Frame delta now)
  assume n: "\<not> cap_hit wstep e st"
  show ?thesis
  proof (cases "steps_due 0 (add64 (accumulator st) delta) < 5")
    case True
    then show ?thesis
      using acc_left_uncapped [of 0] Frame by (simp add: accumulator_frame)
  next
    case False
    moreover have "steps_due 0 (add64 (accumulator st) delta) \<le> 5"
      using steps_due_le [of 0] by simp
    ultimately have "world_steps (fire wstep e st) = world_steps st + 5"
      using Frame by (simp add: world_steps_frame)
    then show ?thesis
      using n by (simp add: cap_hit_def)
  qed
next
  case (Spawn r1 r2)
  assume "accumulator st < fixedTimestep"
  then show ?thesis using Spawn by (simp add: accumulator_spawnCube)
qed

lemma run_nonneg:
  assumes "\<forall>e \<in> set evs. 0 \<le> sample e" and "0 \<le> accumulator st"
  shows "0 \<le> accumulator (run wstep evs st)"
  using assms(1)
proof (induction evs rule: rev_induct)
  case Nil
  show ?case using assms(2) by (simp add: run_def)
next
  case (snoc e evs)
  then show ?case
    by (simp add: run_snoc accumulator_fire_nonneg)
qed

lemma run_uncapped:
  assumes "accumulator st < fixedTimestep"
    and "\<forall>i<length evs. \<not> cap_hit wstep (evs ! i) (run wstep (take i evs) st)"
  shows "accumulator (run wstep evs st) < fixedTimestep"
  using assms(2)
proof (induction evs rule: rev_induct)
  case Nil
  show ?case using assms(1) by (simp add: run_def)
next
  case (snoc e evs)
  have "\<forall>i<length evs. \<not> cap_hit wstep (evs ! i) (run wstep (take i evs) st)"
  proof (intro allI impI)
    fix i assume i: "i < length evs"
    then have "i < length (evs @ [e])"
      by simp
    with snoc.prems
    have "\<not> cap_hit wstep ((evs @ [e]) ! i) (run wstep (take i (evs @ [e])) st)"
      by blast
    then show "\<not> cap_hit wstep (evs ! i) (run wstep (take i evs) st)"
      using i by (simp add: nth_append)
  qed
  then have a: "accumulator (run wstep evs st) < fixedTimestep"
    by (rule snoc.IH)
  have "length evs < length (evs @ [e])"
    by simp
  with snoc.prems
  have "\<not> cap_hit wstep ((evs @ [e]) ! length evs) (run wstep (take (length evs) (evs @ [e])) st)"
    by blast
  then have "\<not> cap_hit wstep e (run wstep evs st)"
    by simp
  with a show ?case
    by (simp add: run_snoc accumulator_fire_uncapped)
qed

lemma few_steps_no_cap_hit:
  "world_steps (fire wstep e st) < world_steps st + 5 \<Longrightarrow> \<not> cap_hit wstep e st"
  by (simp add: cap_hit_def)

lemmas world_defs = createRigidBody_def createCollider_def setRestitution_def setFriction_def
  cuboid_def body_desc_def new_mesh_def

lemma accumulator_init: "accumulator (init t0) = 0"
  by (simp add: init_def Let_def split_beta)

lemma world_steps_init: "world_steps (init t0) = 0"
  by (simp add: world_steps_def init_def Let_def split_beta)

subsection \<open>The error of a rounding\<close>

lemma round_even_err: "\<bar>of_int (round_even y) - y\<bar> \<le> 1 / 2"
proof -
  have "of_int \<lfloor>y\<rfloor> \<le> y" "y < of_int \<lfloor>y\<rfloor> + 1"
    by linarith+
  then show ?thesis
    by (auto simp: round_even_def Let_def)
qed

lemma round_to_err:
  assumes "0 < p"
  shows "\<bar>round_to p emin x - x\<bar> \<le> 2 powi (- int p) * \<bar>x\<bar> + 2 powi (emin - 1)"
proof -
  let ?n = "\<lfloor>\<bar>x\<bar> * 2 powi (- emin)\<rfloor>"
  let ?b = "bitlen ?n"
  let ?e = "max (?b - int p + emin) emin"
  let ?y = "x / 2 powi ?e"
  have pos: "(0::real) < 2 powi ?e"
    by simp
  have "round_to p emin x - x = (of_int (round_even ?y) - ?y) * 2 powi ?e"
    using pos by (simp add: round_to_def Let_def algebra_simps)
  then have "\<bar>round_to p emin x - x\<bar> = \<bar>of_int (round_even ?y) - ?y\<bar> * 2 powi ?e"
    using pos by (simp add: abs_mult)
  also have "\<dots> \<le> 1 / 2 * 2 powi ?e"
    using round_even_err [of ?y] pos by (intro mult_right_mono) simp_all
  also have "\<dots> = 2 powi (?e - 1)"
    by (simp add: power_int_diff)
  finally have main: "\<bar>round_to p emin x - x\<bar> \<le> 2 powi (?e - 1)" .
  show ?thesis
  proof (cases "?b - int p + emin \<le> emin")
    case True
    then have "?e = emin"
      by simp
    then have "\<bar>round_to p emin x - x\<bar> \<le> 2 powi (emin - 1)"
      using main by simp
    moreover have "0 \<le> 2 powi (- int p) * \<bar>x\<bar>"
      by simp
    ultimately show ?thesis
      by linarith
  next
    case False
    then have e: "?e = ?b - int p + emin"
      by simp
    have b: "0 < ?b"
      using False assms by simp
    then have n: "0 < ?n"
      using bitlen_eq_zero_iff [of ?n] by linarith
    have "2 ^ nat (?b - 1) \<le> ?n"
      using bitlen_bounds [OF n] by simp
    then have "(2::real) ^ nat (?b - 1) \<le> of_int ?n"
      by (metis of_int_le_iff of_int_numeral of_int_power)
    also have "\<dots> \<le> \<bar>x\<bar> * 2 powi (- emin)"
      by simp
    finally have "2 powi (?b - 1) \<le> \<bar>x\<bar> * 2 powi (- emin)"
      using b by (simp add: power_int_def)
    then have "2 powi (?b - 1) * 2 powi emin \<le> (\<bar>x\<bar> * 2 powi (- emin)) * 2 powi emin"
      by (intro mult_right_mono) simp_all
    also have "\<dots> = \<bar>x\<bar> * (2 powi (- emin) * 2 powi emin)"
      by (simp only: mult.assoc)
    also have "(2::real) powi (- emin) * 2 powi emin = 1"
      by (simp add: power_int_minus)
    finally have "2 powi (?b - 1) * 2 powi emin \<le> \<bar>x\<bar>"
      by simp
    moreover have "(2::real) powi (?b - 1 + emin) = 2 powi (?b - 1) * 2 powi emin"
      by (rule power_int_add) simp
    ultimately have x: "2 powi (?b - 1 + emin) \<le> \<bar>x\<bar>"
      by simp
    have eq: "?e - 1 = - int p + (?b - 1 + emin)"
      unfolding e by simp
    have "(2::real) powi (?e - 1) = 2 powi (- int p + (?b - 1 + emin))"
      by (simp only: eq)
    also have "\<dots> = 2 powi (- int p) * 2 powi (?b - 1 + emin)"
      by (rule power_int_add) simp
    also have "\<dots> \<le> 2 powi (- int p) * \<bar>x\<bar>"
      using x by (intro mult_left_mono) simp_all
    finally have "2 powi (?e - 1) \<le> 2 powi (- int p) * \<bar>x\<bar>" .
    moreover have "(0::real) \<le> 2 powi (emin - 1)"
      by simp
    ultimately show ?thesis
      using main by linarith
  qed
qed

lemma rnd64_err_powi: "\<bar>rnd64 x - x\<bar> \<le> 2 powi (- 53) * \<bar>x\<bar> + 2 powi (- 1075)"
  using round_to_err [of 53 "- 1074" x] by (simp add: rnd64_def)

subsection \<open>Roundings at the values met below\<close>

lemma rnd64_at_1: "rnd64 (2 / 125) = 1152921504606847 / 72057594037927936"
  unfolding rnd64_def
  by (rule round_to_eqI [where k = "- 6" and m = "4611686018427388"]) (simp_all add: round_even_def)

lemma rnd64_at_2: "rnd64 (1 / 20) = 3602879701896397 / 72057594037927936"
  unfolding rnd64_def
  by (rule round_to_eqI [where k = "- 5" and m = "7205759403792794"]) (simp_all add: round_even_def)

lemma rnd64_at_3: "rnd64 (3602879701896397 / 72057594037927936) = 3602879701896397 / 72057594037927936"
  unfolding rnd64_def
  by (rule round_to_eqI [where k = "- 5" and m = "7205759403792794"]) (simp_all add: round_even_def)

lemma rnd64_at_4: "rnd64 (1224979098644775 / 36028797018963968) = 1224979098644775 / 36028797018963968"
  unfolding rnd64_def
  by (rule round_to_eqI [where k = "- 5" and m = "4899916394579100"]) (simp_all add: round_even_def)

lemma rnd64_at_5: "rnd64 (1297036692682703 / 72057594037927936) = 1297036692682703 / 72057594037927936"
  unfolding rnd64_def
  by (rule round_to_eqI [where k = "- 6" and m = "5188146770730812"]) (simp_all add: round_even_def)

lemma rnd64_at_6: "rnd64 (9007199254741 / 4503599627370496) = 9007199254741 / 4503599627370496"
  unfolding rnd64_def
  by (rule round_to_eqI [where k = "- 9" and m = "4611686018427392"]) (simp_all add: round_even_def)

lemma rnd64_at_7: "rnd64 (1 / 5) = 3602879701896397 / 18014398509481984"
  unfolding rnd64_def
  by (rule round_to_eqI [where k = "- 3" and m = "7205759403792794"]) (simp_all add: round_even_def)

lemma rnd64_at_8: "rnd64 (3602879701896397 / 18014398509481984) = 3602879701896397 / 18014398509481984"
  unfolding rnd64_def
  by (rule round_to_eqI [where k = "- 3" and m = "7205759403792794"]) (simp_all add: round_even_def)

lemma rnd64_at_9: "rnd64 (13258597302978741 / 72057594037927936) = 3314649325744685 / 18014398509481984"
  unfolding rnd64_def
  by (rule round_to_eqI [where k = "- 3" and m = "6629298651489370"]) (simp_all add: round_even_def)

lemma rnd64_at_10: "rnd64 (12105675798371893 / 72057594037927936) = 3026418949592973 / 18014398509481984"
  unfolding rnd64_def
  by (rule round_to_eqI [where k = "- 3" and m = "6052837899185946"]) (simp_all add: round_even_def)

lemma rnd64_at_11: "rnd64 (10952754293765045 / 72057594037927936) = 2738188573441261 / 18014398509481984"
  unfolding rnd64_def
  by (rule round_to_eqI [where k = "- 3" and m = "5476377146882522"]) (simp_all add: round_even_def)

lemma rnd64_at_12: "rnd64 (9799832789158197 / 72057594037927936) = 2449958197289549 / 18014398509481984"
  unfolding rnd64_def
  by (rule round_to_eqI [where k = "- 3" and m = "4899916394579098"]) (simp_all add: round_even_def)

lemma rnd64_at_13: "rnd64 (8646911284551349 / 72057594037927936) = 8646911284551349 / 72057594037927936"
  unfolding rnd64_def
  by (rule round_to_eqI [where k = "- 4" and m = "8646911284551349"]) (simp_all add: round_even_def)

lemma rnd64_at_14: "rnd64 (3 / 25) = 1080863910568919 / 9007199254740992"
  unfolding rnd64_def
  by (rule round_to_eqI [where k = "- 4" and m = "8646911284551352"]) (simp_all add: round_even_def)

lemma rnd64_at_15: "rnd64 (5764607523034235 / 72057594037927936) = 5764607523034235 / 72057594037927936"
  unfolding rnd64_def
  by (rule round_to_eqI [where k = "- 4" and m = "5764607523034235"]) (simp_all add: round_even_def)

lemma rnd64_at_16: "rnd64 (8646911284551353 / 72057594037927936) = 8646911284551353 / 72057594037927936"
  unfolding rnd64_def
  by (rule round_to_eqI [where k = "- 4" and m = "8646911284551353"]) (simp_all add: round_even_def)

lemma rnd64_at_17: "rnd64 (7 / 500) = 8070450532247929 / 576460752303423488"
  unfolding rnd64_def
  by (rule round_to_eqI [where k = "- 7" and m = "8070450532247929"]) (simp_all add: round_even_def)

lemma rnd64_at_18: "rnd64 (8070450532247929 / 576460752303423488) = 8070450532247929 / 576460752303423488"
  unfolding rnd64_def
  by (rule round_to_eqI [where k = "- 7" and m = "8070450532247929"]) (simp_all add: round_even_def)

lemma rnd64_at_19: "rnd64 (8070450532247929 / 288230376151711744) = 8070450532247929 / 288230376151711744"
  unfolding rnd64_def
  by (rule round_to_eqI [where k = "- 6" and m = "8070450532247929"]) (simp_all add: round_even_def)

lemma rnd64_at_20: "rnd64 (3458764513820541 / 288230376151711744) = 3458764513820541 / 288230376151711744"
  unfolding rnd64_def
  by (rule round_to_eqI [where k = "- 7" and m = "6917529027641082"]) (simp_all add: round_even_def)

lemma rnd64_at_21: "rnd64 (14987979559889011 / 576460752303423488) = 3746994889972253 / 144115188075855872"
  unfolding rnd64_def
  by (rule round_to_eqI [where k = "- 6" and m = "7493989779944506"]) (simp_all add: round_even_def)

lemma rnd64_at_22: "rnd64 (1441151880758559 / 144115188075855872) = 1441151880758559 / 144115188075855872"
  unfolding rnd64_def
  by (rule round_to_eqI [where k = "- 7" and m = "5764607523034236"]) (simp_all add: round_even_def)

lemma rnd64_at_23: "rnd64 (13835058055282165 / 576460752303423488) = 3458764513820541 / 144115188075855872"
  unfolding rnd64_def
  by (rule round_to_eqI [where k = "- 6" and m = "6917529027641082"]) (simp_all add: round_even_def)

lemma rnd64_at_24: "rnd64 (1152921504606847 / 144115188075855872) = 1152921504606847 / 144115188075855872"
  unfolding rnd64_def
  by (rule round_to_eqI [where k = "- 7" and m = "4611686018427388"]) (simp_all add: round_even_def)

lemma rnd64_at_25: "rnd64 (12682136550675317 / 576460752303423488) = 3170534137668829 / 144115188075855872"
  unfolding rnd64_def
  by (rule round_to_eqI [where k = "- 6" and m = "6341068275337658"]) (simp_all add: round_even_def)

lemma rnd64_at_26: "rnd64 (864691128455135 / 144115188075855872) = 864691128455135 / 144115188075855872"
  unfolding rnd64_def
  by (rule round_to_eqI [where k = "- 8" and m = "6917529027641080"]) (simp_all add: round_even_def)

lemma rnd64_at_27: "rnd64 (11529215046068469 / 576460752303423488) = 2882303761517117 / 144115188075855872"
  unfolding rnd64_def
  by (rule round_to_eqI [where k = "- 6" and m = "5764607523034234"]) (simp_all add: round_even_def)

lemma rnd64_at_28: "rnd64 (576460752303423 / 144115188075855872) = 576460752303423 / 144115188075855872"
  unfolding rnd64_def
  by (rule round_to_eqI [where k = "- 8" and m = "4611686018427384"]) (simp_all add: round_even_def)

lemma rnd64_at_29: "rnd64 (10376293541461621 / 576460752303423488) = 2594073385365405 / 144115188075855872"
  unfolding rnd64_def
  by (rule round_to_eqI [where k = "- 6" and m = "5188146770730810"]) (simp_all add: round_even_def)

lemma rnd64_at_30: "rnd64 (288230376151711 / 144115188075855872) = 288230376151711 / 144115188075855872"
  unfolding rnd64_def
  by (rule round_to_eqI [where k = "- 9" and m = "4611686018427376"]) (simp_all add: round_even_def)

lemma rnd64_at_31: "rnd64 (9223372036854773 / 576460752303423488) = 2305843009213693 / 144115188075855872"
  unfolding rnd64_def
  by (rule round_to_eqI [where k = "- 6" and m = "4611686018427386"]) (simp_all add: round_even_def)

lemma rnd64_at_32: "rnd64 (24211351596743787 / 576460752303423488) = 6052837899185947 / 144115188075855872"
  unfolding rnd64_def
  by (rule round_to_eqI [where k = "- 5" and m = "6052837899185947"]) (simp_all add: round_even_def)

lemma rnd64_at_33: "rnd64 (32281802128991717 / 576460752303423488) = 8070450532247929 / 144115188075855872"
  unfolding rnd64_def
  by (rule round_to_eqI [where k = "- 5" and m = "8070450532247929"]) (simp_all add: round_even_def)

lemma rnd64_at_34: "rnd64 (40352252661239645 / 576460752303423488) = 1261007895663739 / 18014398509481984"
  unfolding rnd64_def
  by (rule round_to_eqI [where k = "- 4" and m = "5044031582654956"]) (simp_all add: round_even_def)

lemma rnd64_at_35: "rnd64 (48422703193487577 / 576460752303423488) = 6052837899185947 / 72057594037927936"
  unfolding rnd64_def
  by (rule round_to_eqI [where k = "- 4" and m = "6052837899185947"]) (simp_all add: round_even_def)

lemma rnd64_at_36: "rnd64 (56493153725735505 / 576460752303423488) = 3530822107858469 / 36028797018963968"
  unfolding rnd64_def
  by (rule round_to_eqI [where k = "- 4" and m = "7061644215716938"]) (simp_all add: round_even_def)

lemma rnd64_at_37: "rnd64 (64563604257983433 / 576460752303423488) = 8070450532247929 / 72057594037927936"
  unfolding rnd64_def
  by (rule round_to_eqI [where k = "- 4" and m = "8070450532247929"]) (simp_all add: round_even_def)

lemma rnd64_at_38: "rnd64 (7) = 7"
  unfolding rnd64_def
  by (rule round_to_eqI [where k = "2" and m = "7881299347898368"]) (simp_all add: round_even_def)

lemma rnd64_at_39: "rnd64 (1 / 25) = 5764607523034235 / 144115188075855872"
  unfolding rnd64_def
  by (rule round_to_eqI [where k = "- 5" and m = "5764607523034235"]) (simp_all add: round_even_def)

lemma rnd64_at_40: "rnd64 (6052837899185947 / 144115188075855872) = 6052837899185947 / 144115188075855872"
  unfolding rnd64_def
  by (rule round_to_eqI [where k = "- 5" and m = "6052837899185947"]) (simp_all add: round_even_def)

lemma rnd64_at_41: "rnd64 (3746994889972253 / 144115188075855872) = 3746994889972253 / 144115188075855872"
  unfolding rnd64_def
  by (rule round_to_eqI [where k = "- 6" and m = "7493989779944506"]) (simp_all add: round_even_def)

lemma rnd64_at_42: "rnd64 (18557 / 5) = 8161454910655693 / 2199023255552"
  unfolding rnd64_def
  by (rule round_to_eqI [where k = "11" and m = "8161454910655693"]) (simp_all add: round_even_def)

lemma rnd64_at_43: "rnd64 (21057 / 5) = 2315241634607923 / 549755813888"
  unfolding rnd64_def
  by (rule round_to_eqI [where k = "12" and m = "4630483269215846"]) (simp_all add: round_even_def)

lemma rnd64_at_44: "rnd64 (9260966538431693 / 2199023255552) = 2315241634607923 / 549755813888"
  unfolding rnd64_def
  by (rule round_to_eqI [where k = "12" and m = "4630483269215846"]) (simp_all add: round_even_def)

lemma rnd64_at_45: "rnd64 (1099511627775999 / 2199023255552) = 1099511627775999 / 2199023255552"
  unfolding rnd64_def
  by (rule round_to_eqI [where k = "8" and m = "8796093022207992"]) (simp_all add: round_even_def)

lemma rnd64_at_46: "rnd64 (38000) = 38000"
  unfolding rnd64_def
  by (rule round_to_eqI [where k = "15" and m = "5222680231936000"]) (simp_all add: round_even_def)

lemma rnd64_at_47: "rnd64 (83562883710976000 / 1099511627775999) = 5348024557502469 / 70368744177664"
  unfolding rnd64_def
  by (rule round_to_eqI [where k = "6" and m = "5348024557502469"]) (simp_all add: round_even_def)

lemma rnd64_at_48: "rnd64 (6666666666666667 / 2000000000000) = 7330077518506667 / 2199023255552"
  unfolding rnd64_def
  by (rule round_to_eqI [where k = "11" and m = "7330077518506667"]) (simp_all add: round_even_def)

lemma rnd64_at_49: "rnd64 (7330077518506667 / 2199023255552) = 7330077518506667 / 2199023255552"
  unfolding rnd64_def
  by (rule round_to_eqI [where k = "11" and m = "7330077518506667"]) (simp_all add: round_even_def)

lemma rnd64_at_50: "rnd64 (5000) = 5000"
  unfolding rnd64_def
  by (rule round_to_eqI [where k = "12" and m = "5497558138880000"]) (simp_all add: round_even_def)

lemma rnd64_at_51: "rnd64 (10995116277760000 / 7330077518506667) = 3 / 2"
  unfolding rnd64_def
  by (rule round_to_eqI [where k = "0" and m = "6755399441055744"]) (simp_all add: round_even_def)

lemma rnd64_at_52: "rnd64 (500) = 500"
  unfolding rnd64_def
  by (rule round_to_eqI [where k = "8" and m = "8796093022208000"]) (simp_all add: round_even_def)

lemma rnd64_at_53: "rnd64 (1500) = 1500"
  unfolding rnd64_def
  by (rule round_to_eqI [where k = "10" and m = "6597069766656000"]) (simp_all add: round_even_def)

lemma rnd64_at_54: "rnd64 (4000) = 4000"
  unfolding rnd64_def
  by (rule round_to_eqI [where k = "11" and m = "8796093022208000"]) (simp_all add: round_even_def)

lemma rnd64_at_55: "rnd64 (8) = 8"
  unfolding rnd64_def
  by (rule round_to_eqI [where k = "3" and m = "4503599627370496"]) (simp_all add: round_even_def)

lemma rnd64_at_56: "rnd64 (600) = 600"
  unfolding rnd64_def
  by (rule round_to_eqI [where k = "9" and m = "5277655813324800"]) (simp_all add: round_even_def)

lemma rnd64_at_57: "rnd64 (20 / 3) = 7505999378950827 / 1125899906842624"
  unfolding rnd64_def
  by (rule round_to_eqI [where k = "2" and m = "7505999378950827"]) (simp_all add: round_even_def)

lemma rnd64_at_58: "rnd64 (3 / 2) = 3 / 2"
  unfolding rnd64_def
  by (rule round_to_eqI [where k = "0" and m = "6755399441055744"]) (simp_all add: round_even_def)

lemma rnd32_at_59: "rnd32 (3 / 2) = 3 / 2"
  unfolding rnd32_def
  by (rule round_to_eqI [where k = "0" and m = "12582912"]) (simp_all add: round_even_def)

lemma rnd64_at_60: "rnd64 (3 / 4) = 3 / 4"
  unfolding rnd64_def
  by (rule round_to_eqI [where k = "- 1" and m = "6755399441055744"]) (simp_all add: round_even_def)

lemma rnd32_at_61: "rnd32 (3 / 4) = 3 / 4"
  unfolding rnd32_def
  by (rule round_to_eqI [where k = "- 1" and m = "12582912"]) (simp_all add: round_even_def)

lemma rnd64_at_62: "rnd64 (9 / 4) = 9 / 4"
  unfolding rnd64_def
  by (rule round_to_eqI [where k = "1" and m = "5066549580791808"]) (simp_all add: round_even_def)

lemma rnd32_at_63: "rnd32 (9 / 4) = 9 / 4"
  unfolding rnd32_def
  by (rule round_to_eqI [where k = "1" and m = "9437184"]) (simp_all add: round_even_def)

lemma rnd64_at_64: "rnd64 (3 / 8) = 3 / 8"
  unfolding rnd64_def
  by (rule round_to_eqI [where k = "- 2" and m = "6755399441055744"]) (simp_all add: round_even_def)

lemma rnd32_at_65: "rnd32 (3 / 8) = 3 / 8"
  unfolding rnd32_def
  by (rule round_to_eqI [where k = "- 2" and m = "12582912"]) (simp_all add: round_even_def)

lemma rnd32_at_66: "rnd32 (15) = 15"
  unfolding rnd32_def
  by (rule round_to_eqI [where k = "3" and m = "15728640"]) (simp_all add: round_even_def)

lemma rnd32_at_67: "rnd32 (1) = 1"
  unfolding rnd32_def
  by (rule round_to_eqI [where k = "0" and m = "8388608"]) (simp_all add: round_even_def)

lemma rnd32_at_68: "rnd32 (1 / 2) = 1 / 2"
  unfolding rnd32_def
  by (rule round_to_eqI [where k = "- 1" and m = "8388608"]) (simp_all add: round_even_def)

lemma rnd32_at_69: "rnd32 (25) = 25"
  unfolding rnd32_def
  by (rule round_to_eqI [where k = "4" and m = "13107200"]) (simp_all add: round_even_def)

lemma rnd32_at_70: "rnd32 (2) = 2"
  unfolding rnd32_def
  by (rule round_to_eqI [where k = "1" and m = "8388608"]) (simp_all add: round_even_def)

lemma rnd32_at_71: "rnd32 (50) = 50"
  unfolding rnd32_def
  by (rule round_to_eqI [where k = "5" and m = "13107200"]) (simp_all add: round_even_def)

lemmas rnd_at = rnd64_at_1 rnd64_at_2 rnd64_at_3 rnd64_at_4 rnd64_at_5 rnd64_at_6 rnd64_at_7 rnd64_at_8 rnd64_at_9 rnd64_at_10 rnd64_at_11 rnd64_at_12 rnd64_at_13 rnd64_at_14 rnd64_at_15 rnd64_at_16 rnd64_at_17 rnd64_at_18 rnd64_at_19 rnd64_at_20 rnd64_at_21 rnd64_at_22 rnd64_at_23 rnd64_at_24 rnd64_at_25 rnd64_at_26 rnd64_at_27 rnd64_at_28 rnd64_at_29 rnd64_at_30 rnd64_at_31 rnd64_at_32 rnd64_at_33 rnd64_at_34 rnd64_at_35 rnd64_at_36 rnd64_at_37 rnd64_at_38 rnd64_at_39 rnd64_at_40 rnd64_at_41 rnd64_at_42 rnd64_at_43 rnd64_at_44 rnd64_at_45 rnd64_at_46 rnd64_at_47 rnd64_at_48 rnd64_at_49 rnd64_at_50 rnd64_at_51 rnd64_at_52 rnd64_at_53 rnd64_at_54 rnd64_at_55 rnd64_at_56 rnd64_at_57 rnd64_at_58 rnd32_at_59 rnd64_at_60 rnd32_at_61 rnd64_at_62 rnd32_at_63 rnd64_at_64 rnd32_at_65 rnd32_at_66 rnd32_at_67 rnd32_at_68 rnd32_at_69 rnd32_at_70 rnd32_at_71

lemma loop_50ms:
  "steps_due 0 (3602879701896397 / 72057594037927936) = 3 \<and> acc_left 0 (3602879701896397 / 72057594037927936) = 9007199254741 / 4503599627370496"
  by (simp add: steps_due.simps acc_left.simps sub64_def fixedTimestep_val rnd_at)

lemma loop_200ms:
  "steps_due 0 (3602879701896397 / 18014398509481984) = 5 \<and> acc_left 0 (3602879701896397 / 18014398509481984) = 8646911284551349 / 72057594037927936"
  by (simp add: steps_due.simps acc_left.simps sub64_def fixedTimestep_val rnd_at)

lemma loop_14ms_1:
  "steps_due 0 (8070450532247929 / 576460752303423488) = 0 \<and> acc_left 0 (8070450532247929 / 576460752303423488) = 8070450532247929 / 576460752303423488"
  by (simp add: steps_due.simps acc_left.simps sub64_def fixedTimestep_val rnd_at)

lemma loop_14ms_2:
  "steps_due 0 (8070450532247929 / 288230376151711744) = 1 \<and> acc_left 0 (8070450532247929 / 288230376151711744) = 3458764513820541 / 288230376151711744"
  by (simp add: steps_due.simps acc_left.simps sub64_def fixedTimestep_val rnd_at)

lemma loop_14ms_3:
  "steps_due 0 (3746994889972253 / 144115188075855872) = 1 \<and> acc_left 0 (3746994889972253 / 144115188075855872) = 1441151880758559 / 144115188075855872"
  by (simp add: steps_due.simps acc_left.simps sub64_def fixedTimestep_val rnd_at)

lemma loop_14ms_4:
  "steps_due 0 (3458764513820541 / 144115188075855872) = 1 \<and> acc_left 0 (3458764513820541 / 144115188075855872) = 1152921504606847 / 144115188075855872"
  by (simp add: steps_due.simps acc_left.simps sub64_def fixedTimestep_val rnd_at)

lemma loop_14ms_5:
  "steps_due 0 (3170534137668829 / 144115188075855872) = 1 \<and> acc_left 0 (3170534137668829 / 144115188075855872) = 864691128455135 / 144115188075855872"
  by (simp add: steps_due.simps acc_left.simps sub64_def fixedTimestep_val rnd_at)

lemma loop_14ms_6:
  "steps_due 0 (2882303761517117 / 144115188075855872) = 1 \<and> acc_left 0 (2882303761517117 / 144115188075855872) = 576460752303423 / 144115188075855872"
  by (simp add: steps_due.simps acc_left.simps sub64_def fixedTimestep_val rnd_at)

lemma loop_14ms_7:
  "steps_due 0 (2594073385365405 / 144115188075855872) = 1 \<and> acc_left 0 (2594073385365405 / 144115188075855872) = 288230376151711 / 144115188075855872"
  by (simp add: steps_due.simps acc_left.simps sub64_def fixedTimestep_val rnd_at)

lemma loop_14ms_8:
  "steps_due 0 (2305843009213693 / 144115188075855872) = 0 \<and> acc_left 0 (2305843009213693 / 144115188075855872) = 2305843009213693 / 144115188075855872"
  by (simp add: steps_due.simps acc_left.simps sub64_def fixedTimestep_val rnd_at)

lemma loop_40ms:
  "steps_due 0 (6052837899185947 / 144115188075855872) = 2 \<and> acc_left 0 (6052837899185947 / 144115188075855872) = 1441151880758559 / 144115188075855872"
  by (simp add: steps_due.simps acc_left.simps sub64_def fixedTimestep_val rnd_at)

subsection \<open>Runs of frames, references\<close>

lemma replicate_snoc: "replicate (Suc n) x = replicate n x @ [x]"
  by (simp add: replicate_append_same)

lemma frames_snoc: "frames (fs @ [(delta, now)]) = frames fs @ [Frame delta now]"
  by (simp add: frames_def)

lemma frames_take: "i < length fs \<Longrightarrow>
  frames (take (Suc i) fs) = frames (take i fs) @ [frames fs ! i]"
  by (simp add: frames_def take_Suc_conv_app_nth)

lemma frames_nth: "i < length fs \<Longrightarrow> frames fs ! i = Frame (fst (fs ! i)) (snd (fs ! i))"
  by (simp add: frames_def split_beta)

lemma sample_frames: "(\<forall>e \<in> set (frames fs). 0 \<le> sample e) \<longleftrightarrow> (\<forall>(delta, now) \<in> set fs. 0 \<le> delta)"
  by (auto simp: frames_def)

lemma world_run_frames:
  "world_steps st \<le> world_steps (run wstep (frames fs) st)
   \<and> world_steps (run wstep (frames fs) st) \<le> world_steps st + 5 * length fs
   \<and> world (run wstep (frames fs) st) =
       (wstep ^^ (world_steps (run wstep (frames fs) st) - world_steps st)) (world st)"
proof (induction fs rule: rev_induct)
  case Nil
  show ?case by (simp add: frames_def run_def)
next
  case (snoc f fs)
  obtain delta now where f: "f = (delta, now)"
    by (cases f)
  let ?s = "run wstep (frames fs) st"
  let ?k = "steps_due 0 (add64 (accumulator ?s) delta)"
  have r: "run wstep (frames (fs @ [f])) st = frame wstep delta now ?s"
    by (simp add: f frames_snoc run_snoc)
  have k: "?k \<le> 5"
    using steps_due_le [of 0] by simp
  have w: "world_steps (frame wstep delta now ?s) = world_steps ?s + ?k"
    by (rule world_steps_frame)
  have "world (frame wstep delta now ?s) = (wstep ^^ ?k) (world ?s)"
    by (rule world_frame)
  also have "\<dots> = (wstep ^^ ?k) ((wstep ^^ (world_steps ?s - world_steps st)) (world st))"
    using snoc.IH by simp
  also have "\<dots> = (wstep ^^ (?k + (world_steps ?s - world_steps st))) (world st)"
    by (simp add: funpow_add)
  also have "?k + (world_steps ?s - world_steps st) = world_steps (frame wstep delta now ?s) - world_steps st"
    using snoc.IH w by simp
  finally have 3: "world (frame wstep delta now ?s) =
      (wstep ^^ (world_steps (frame wstep delta now ?s) - world_steps st)) (world st)" .
  have 1: "world_steps st \<le> world_steps (frame wstep delta now ?s)"
    using snoc.IH w by simp
  have 2: "world_steps (frame wstep delta now ?s) \<le> world_steps st + 5 * length (fs @ [f])"
    using snoc.IH w k by simp
  show ?case
    unfolding r using 1 2 3 by blast
qed

lemma frame_step_facts:
  "\<exists>k\<le>5. world_steps (frame wstep delta now st) = world_steps st + k
         \<and> world (frame wstep delta now st) = (wstep ^^ k) (world st)
         \<and> (k < 5 \<longrightarrow> accumulator (frame wstep delta now st) < fixedTimestep)"
proof -
  let ?k = "steps_due 0 (add64 (accumulator st) delta)"
  have "?k \<le> 5"
    using steps_due_le [of 0] by simp
  moreover have "?k < 5 \<longrightarrow> accumulator (frame wstep delta now st) < fixedTimestep"
    using acc_left_uncapped [of 0] by (simp add: accumulator_frame)
  ultimately show ?thesis
    using world_steps_frame world_frame by blast
qed

lemma body_count_frame:
  "(\<forall>w. body_count (wstep w) = body_count w) \<Longrightarrow>
     body_count (world (frame wstep delta now st)) = body_count (world st)"
proof -
  assume h: "\<forall>w. body_count (wstep w) = body_count w"
  have "body_count ((wstep ^^ n) w) = body_count w" for n w
    by (induction n) (simp_all add: h)
  then show ?thesis
    by (simp add: world_frame)
qed

lemma body_count_spawnCube:
  "body_count (world (spawnCube r1 r2 st)) =
     (if 50 < fps (fpsTracker st) then body_count (world st) + 1 else body_count (world st))"
  by (simp add: spawnCube_def Let_def createRigidBody_def createCollider_def
      setRestitution_def setFriction_def)

lemma body_refs_ok_fire:
  "(\<forall>w. body_count (wstep w) = body_count w) \<Longrightarrow> body_refs_ok st \<Longrightarrow>
     body_refs_ok (fire wstep e st)"
  by (cases e)
     (auto simp: body_refs_ok_def cubes_frame body_count_frame cubes_spawnCube body_count_spawnCube)

lemma body_refs_ok_run:
  "(\<forall>w. body_count (wstep w) = body_count w) \<Longrightarrow> body_refs_ok st \<Longrightarrow>
     body_refs_ok (run wstep evs st)"
proof (induction evs rule: rev_induct)
  case Nil
  then show ?case by (simp add: run_def)
next
  case (snoc e evs)
  then show ?case by (simp add: run_snoc body_refs_ok_fire)
qed

lemma refs_ok_init: "mesh_refs_ok (init t0) \<and> body_refs_ok (init t0)"
  by (simp add: mesh_refs_ok_def body_refs_ok_def init_def Let_def split_beta)

subsection \<open>The accumulator up to rounding\<close>

lemma rnd64_err: "\<bar>rnd64 x - x\<bar> \<le> u64 * \<bar>x\<bar> + tiny64"
  using rnd64_err_powi [of x] by (simp only: u64_def tiny64_def)

lemma u64_bounds: "0 \<le> u64" "u64 \<le> 1 / 100" "0 \<le> tiny64" "tiny64 \<le> fixedTimestep"
proof -
  show "0 \<le> u64" "0 \<le> tiny64"
    by (simp_all add: u64_def tiny64_def)
  show "u64 \<le> 1 / 100"
    by (simp add: u64_def)
  have "(2::real) powi (- 1075) \<le> 2 powi (- 7)"
    by (intro power_int_increasing) simp_all
  also have "\<dots> \<le> fixedTimestep"
    by (simp add: fixedTimestep_val)
  finally show "tiny64 \<le> fixedTimestep"
    by (simp only: tiny64_def)
qed

lemma roundoff_consts:
  "5 * u64 * (1 + u64) ^ 5 * (1 + u64) \<le> 7 * u64"
  "5 * u64 * (1 + u64) ^ 5 \<le> 1"
proof -
  have "1 + u64 \<le> 101 / 100"
    using u64_bounds(2) by simp
  then have "(1 + u64) ^ 6 \<le> (101 / 100) ^ 6"
    using u64_bounds(1) by (intro power_mono) simp_all
  also have "\<dots> \<le> 7 / 5"
    by (simp add: power_divide)
  finally have p6: "(1 + u64) ^ 6 \<le> 7 / 5" .
  have "(1 + u64) ^ 5 \<le> (1 + u64) ^ 6"
    using u64_bounds(1) by (intro power_increasing) simp_all
  then have p5: "(1 + u64) ^ 5 \<le> 7 / 5"
    using p6 by linarith
  have "5 * u64 * ((1 + u64) ^ 5 * (1 + u64)) = 5 * u64 * (1 + u64) ^ 6"
    by (simp add: power_Suc2 [symmetric] del: power_Suc)
  also have "\<dots> \<le> 5 * u64 * (7 / 5)"
    using p6 u64_bounds(1) by (intro mult_left_mono) simp_all
  finally show "5 * u64 * (1 + u64) ^ 5 * (1 + u64) \<le> 7 * u64"
    by (simp add: mult.assoc)
  have "5 * u64 * (1 + u64) ^ 5 \<le> 5 * u64 * (7 / 5)"
    using p5 u64_bounds(1) by (intro mult_left_mono) simp_all
  also have "\<dots> \<le> 1"
    using u64_bounds(2) by simp
  finally show "5 * u64 * (1 + u64) ^ 5 \<le> 1" .
qed

lemma loop_err:
  assumes "0 \<le> a" and "a \<le> c * (1 + u64) ^ steps" and "steps \<le> 5"
  shows "\<bar>acc_left steps a - (a - real (steps_due steps a) * fixedTimestep)\<bar>
           \<le> real (steps_due steps a) * (u64 * c * (1 + u64) ^ 5 + tiny64)"
  using assms
proof (induction steps a rule: acc_left.induct)
  case (1 steps a)
  let ?u = "u64"
  let ?h = "tiny64"
  let ?E = "?u * c * (1 + ?u) ^ 5 + ?h"
  show ?case
  proof (cases "a \<ge> fixedTimestep \<and> steps < 5")
    case True
    let ?x = "a - fixedTimestep"
    let ?a' = "sub64 a fixedTimestep"
    let ?k' = "steps_due (steps + 1) ?a'"
    have k: "steps_due steps a = Suc ?k'"
      using True by (subst steps_due.simps) simp
    have al: "acc_left steps a = acc_left (steps + 1) ?a'"
      using True by (subst acc_left.simps) simp
    have x0: "0 \<le> ?x" "?x \<le> a"
      using True fixedTimestep_pos by simp_all
    have u0: "0 \<le> ?u" "0 \<le> ?h" "(1::real) \<le> 1 + ?u"
      using u64_bounds by simp_all
    have pw: "(0::real) < (1 + ?u) ^ steps"
      using u0 by (intro zero_less_power) simp
    have c0: "0 \<le> c"
    proof (rule ccontr)
      assume "\<not> 0 \<le> c"
      then have "c * (1 + ?u) ^ steps < 0"
        using pw by (simp add: mult_less_0_iff)
      then show False
        using "1.prems"(1,2) by linarith
    qed
    have e1: "\<bar>?a' - ?x\<bar> \<le> ?u * ?x + ?h"
      using rnd64_err [of ?x] x0(1) by (simp add: sub64_def)
    have "(1 + ?u) ^ steps \<le> (1 + ?u) ^ 5"
      using "1.prems"(3) u0 by (intro power_increasing) simp_all
    then have "c * (1 + ?u) ^ steps \<le> c * (1 + ?u) ^ 5"
      using c0 by (intro mult_left_mono)
    then have "a \<le> c * (1 + ?u) ^ 5"
      using "1.prems"(2) by linarith
    then have "?u * a \<le> ?u * (c * (1 + ?u) ^ 5)"
      using u0 by (intro mult_left_mono)
    moreover have "?u * ?x \<le> ?u * a"
      using x0(2) u0 by (intro mult_left_mono)
    ultimately have "?u * ?x + ?h \<le> ?E"
      by (simp add: mult.assoc)
    then have e2: "\<bar>?a' - ?x\<bar> \<le> ?E"
      using e1 by linarith
    have a0: "0 \<le> ?a'"
      using True by (simp add: sub64_nonneg)
    have "?a' \<le> ?x + (?u * ?x + ?h)"
      using e1 by linarith
    also have "\<dots> = a * (1 + ?u) - fixedTimestep * (1 + ?u) + ?h"
      by (simp add: algebra_simps)
    also have "\<dots> \<le> a * (1 + ?u)"
    proof -
      have "fixedTimestep * 1 \<le> fixedTimestep * (1 + ?u)"
        using fixedTimestep_pos u0 by (intro mult_left_mono) simp_all
      then show ?thesis
        using u64_bounds(4) by simp
    qed
    also have "\<dots> \<le> (c * (1 + ?u) ^ steps) * (1 + ?u)"
      using "1.prems"(2) u0 by (intro mult_right_mono) simp_all
    finally have a1: "?a' \<le> c * (1 + ?u) ^ (steps + 1)"
      by (simp add: mult_ac)
    have ih: "\<bar>acc_left (steps + 1) ?a' - (?a' - real ?k' * fixedTimestep)\<bar> \<le> real ?k' * ?E"
      using True a0 a1 by (intro "1.IH") simp_all
    have "acc_left steps a - (a - real (steps_due steps a) * fixedTimestep) =
        (acc_left (steps + 1) ?a' - (?a' - real ?k' * fixedTimestep)) + (?a' - ?x)"
      by (simp add: k al algebra_simps)
    then have "\<bar>acc_left steps a - (a - real (steps_due steps a) * fixedTimestep)\<bar>
        \<le> real ?k' * ?E + ?E"
      using ih e2 by linarith
    also have "\<dots> = real (steps_due steps a) * ?E"
      by (simp add: k algebra_simps)
    finally show ?thesis .
  next
    case False
    then have "steps_due steps a = 0"
      by (subst steps_due.simps) auto
    moreover have "acc_left steps a = a"
      using False by (subst acc_left.simps) auto
    ultimately show ?thesis by simp
  qed
qed

lemma frame_err:
  assumes "0 \<le> accumulator st" and "0 \<le> delta"
  shows "\<bar>accumulator (frame wstep delta now st)
            - (accumulator st + delta
               - real (world_steps (frame wstep delta now st) - world_steps st) * fixedTimestep)\<bar>
           \<le> 8 * u64 * (accumulator st + delta) + 8 * tiny64"
proof -
  let ?u = "u64"
  let ?h = "tiny64"
  let ?x = "accumulator st + delta"
  let ?a = "add64 (accumulator st) delta"
  let ?k = "steps_due 0 ?a"
  let ?c = "?x * (1 + ?u) + ?h"
  let ?E = "?u * ?c * (1 + ?u) ^ 5 + ?h"
  have x0: "0 \<le> ?x"
    using assms by simp
  have e0: "\<bar>?a - ?x\<bar> \<le> ?u * ?x + ?h"
    using rnd64_err [of ?x] x0 by (simp add: add64_def)
  have a0: "0 \<le> ?a"
    using assms by (simp add: add64_nonneg)
  have "?a \<le> ?x + (?u * ?x + ?h)"
    using e0 by linarith
  then have a1: "?a \<le> ?c * (1 + ?u) ^ 0"
    by (simp add: algebra_simps)
  have el: "\<bar>acc_left 0 ?a - (?a - real ?k * fixedTimestep)\<bar> \<le> real ?k * ?E"
    using a0 a1 by (intro loop_err) simp_all
  have c0: "0 \<le> ?c"
    using x0 u64_bounds by simp
  have E0: "0 \<le> ?E"
    using c0 u64_bounds by simp
  have "real ?k \<le> 5"
    using steps_due_le [of 0 ?a] by simp
  then have "real ?k * ?E \<le> 5 * ?E"
    using E0 by (intro mult_right_mono)
  also have "5 * ?E =
      (5 * ?u * (1 + ?u) ^ 5 * (1 + ?u)) * ?x + (5 * ?u * (1 + ?u) ^ 5) * ?h + 5 * ?h"
    by (simp add: algebra_simps)
  also have "\<dots> \<le> (7 * ?u) * ?x + 1 * ?h + 5 * ?h"
  proof -
    have "(5 * ?u * (1 + ?u) ^ 5 * (1 + ?u)) * ?x \<le> (7 * ?u) * ?x"
      using roundoff_consts(1) x0 by (intro mult_right_mono)
    moreover have "(5 * ?u * (1 + ?u) ^ 5) * ?h \<le> 1 * ?h"
      using roundoff_consts(2) u64_bounds(3) by (intro mult_right_mono)
    ultimately show ?thesis by linarith
  qed
  finally have l: "real ?k * ?E \<le> 7 * ?u * ?x + 6 * ?h"
    by simp
  have "\<bar>acc_left 0 ?a - (?x - real ?k * fixedTimestep)\<bar> \<le> (?u * ?x + ?h) + (7 * ?u * ?x + 6 * ?h)"
    using el e0 l by linarith
  also have "\<dots> = (8 * ?u) * ?x + 7 * ?h"
    by (simp add: algebra_simps)
  also have "\<dots> \<le> (8 * ?u) * ?x + 8 * ?h"
    using u64_bounds(3) by simp
  finally show ?thesis
    by (simp add: accumulator_frame world_steps_frame)
qed

lemma frames_account:
  assumes "\<forall>(delta, now) \<in> set fs. 0 \<le> delta" and "0 \<le> accumulator st"
  shows "\<bar>accumulator (run wstep (frames fs) st)
            - (accumulator st + sum_list (map fst fs)
               - real (world_steps (run wstep (frames fs) st) - world_steps st) * fixedTimestep)\<bar>
           \<le> (\<Sum>i<length fs. 8 * u64
                  * (accumulator (run wstep (frames (take i fs)) st) + fst (fs ! i))
                  + 8 * tiny64)"
  using assms(1)
proof (induction fs rule: rev_induct)
  case Nil
  show ?case by (simp add: frames_def run_def)
next
  case (snoc f fs)
  obtain delta now where f: "f = (delta, now)"
    by (cases f)
  let ?s = "run wstep (frames fs) st"
  let ?s' = "frame wstep delta now ?s"
  let ?t = "\<lambda>gs i. 8 * u64 * (accumulator (run wstep (frames (take i gs)) st) + fst (gs ! i))
                  + 8 * tiny64"
  have r: "run wstep (frames (fs @ [f])) st = ?s'"
    by (simp add: f frames_snoc run_snoc)
  have p: "\<forall>(delta, now) \<in> set fs. 0 \<le> delta"
    using snoc.prems by simp
  have d: "0 \<le> delta"
    using snoc.prems f by simp
  have s0: "0 \<le> accumulator ?s"
    using p assms(2) by (intro run_nonneg) (simp_all add: sample_frames)
  note ih = snoc.IH [OF p]
  note fe = frame_err [OF s0 d, of wstep now]
  have m1: "world_steps st \<le> world_steps ?s"
    using world_run_frames [of st wstep fs] by simp
  have m2: "world_steps ?s \<le> world_steps ?s'"
    by (simp add: world_steps_frame)
  have k: "real (world_steps ?s' - world_steps st) =
      real (world_steps ?s - world_steps st) + real (world_steps ?s' - world_steps ?s)"
    using m1 m2 by simp
  have "(\<Sum>i<length (fs @ [f]). ?t (fs @ [f]) i) =
      (\<Sum>i<length fs. ?t (fs @ [f]) i) + ?t (fs @ [f]) (length fs)"
    by simp
  also have "(\<Sum>i<length fs. ?t (fs @ [f]) i) = (\<Sum>i<length fs. ?t fs i)"
    by (intro sum.cong) (simp_all add: nth_append)
  also have "?t (fs @ [f]) (length fs) = 8 * u64 * (accumulator ?s + delta) + 8 * tiny64"
    by (simp add: f)
  finally have S: "(\<Sum>i<length (fs @ [f]). ?t (fs @ [f]) i) =
      (\<Sum>i<length fs. ?t fs i) + (8 * u64 * (accumulator ?s + delta) + 8 * tiny64)" .
  have "\<bar>accumulator ?s'
            - (accumulator st + sum_list (map fst (fs @ [f]))
               - real (world_steps ?s' - world_steps st) * fixedTimestep)\<bar>
        \<le> (\<Sum>i<length fs. ?t fs i) + (8 * u64 * (accumulator ?s + delta) + 8 * tiny64)"
    using ih fe unfolding k by (simp add: f algebra_simps)
  then show ?case
    by (simp only: r S)
qed

section \<open>The claims\<close>

text \<open>
  Claim C1, as amended. Take any sequence of invocations of \<open>frame\<close> that starts with the
  accumulator at 0 and in which every elapsed-time sample is non-negative. Each
  invocation steps the world \<open>k \<le> 5\<close> times, and fewer than five times only if it leaves
  the accumulator below \<open>fixedTimestep\<close>; over the sequence the world is stepped as many
  times as \<^verbatim>\<open>world.step()\<close> is called, at most five times per invocation. The number
  of steps accounts for the samples up to rounding: the accumulator at the end differs
  from the sum of the samples less \<open>fixedTimestep\<close> for every step by at most
  \<open>8 * u64 * (a + dt) + 8 * tiny64\<close> for each invocation, \<open>a\<close> being the accumulator at its
  entry and \<open>dt\<close> its sample. If no invocation hits the cap, the accumulator ends in
  \<open>[0, fixedTimestep)\<close>; an invocation that makes fewer than five steps does not hit the
  cap (lemma \<open>few_steps_no_cap_hit\<close>). The accumulator is non-negative after every
  invocation. The number of steps is not said to be \<open>\<lfloor>total / fixedTimestep\<rfloor>\<close> less the
  steps kept back: the accumulator is rounded to binary64 at every update, and the count
  can fall short of it. No addition of a sample overflows: this is the range in which
  the model follows the code.
\<close>

theorem frames_accumulator:
  assumes "\<forall>(delta, now) \<in> set fs. 0 \<le> delta" and "accumulator st = 0"
    and "\<forall>i<length fs.
           accumulator (run wstep (frames (take i fs)) st) + fst (fs ! i) < 2 ^ 1023"
  shows "(\<forall>i<length fs. \<exists>k\<le>5.
            world_steps (run wstep (frames (take (Suc i) fs)) st) =
              world_steps (run wstep (frames (take i fs)) st) + k
          \<and> world (run wstep (frames (take (Suc i) fs)) st) =
              (wstep ^^ k) (world (run wstep (frames (take i fs)) st))
          \<and> (k < 5 \<longrightarrow> accumulator (run wstep (frames (take (Suc i) fs)) st) < fixedTimestep))
    \<and> world_steps (run wstep (frames fs) st) \<le> world_steps st + 5 * length fs
    \<and> world (run wstep (frames fs) st) =
        (wstep ^^ (world_steps (run wstep (frames fs) st) - world_steps st)) (world st)
    \<and> \<bar>accumulator (run wstep (frames fs) st)
         - (sum_list (map fst fs)
            - real (world_steps (run wstep (frames fs) st) - world_steps st) * fixedTimestep)\<bar>
        \<le> (\<Sum>i<length fs. 8 * u64
                 * (accumulator (run wstep (frames (take i fs)) st) + fst (fs ! i))
                 + 8 * tiny64)
    \<and> ((\<forall>i<length fs. \<not> cap_hit wstep (frames fs ! i) (run wstep (frames (take i fs)) st)) \<longrightarrow>
          0 \<le> accumulator (run wstep (frames fs) st)
        \<and> accumulator (run wstep (frames fs) st) < fixedTimestep)
    \<and> (\<forall>i\<le>length fs. 0 \<le> accumulator (run wstep (frames (take i fs)) st))"
proof -
  have a0: "0 \<le> accumulator st"
    using assms(2) by simp
  have 3: "\<bar>accumulator (run wstep (frames fs) st)
         - (sum_list (map fst fs)
            - real (world_steps (run wstep (frames fs) st) - world_steps st) * fixedTimestep)\<bar>
        \<le> (\<Sum>i<length fs. 8 * u64
                 * (accumulator (run wstep (frames (take i fs)) st) + fst (fs ! i))
                 + 8 * tiny64)"
    using frames_account [OF assms(1) a0, of wstep] assms(2) by simp
  have 1: "\<forall>i<length fs. \<exists>k\<le>5.
            world_steps (run wstep (frames (take (Suc i) fs)) st) =
              world_steps (run wstep (frames (take i fs)) st) + k
          \<and> world (run wstep (frames (take (Suc i) fs)) st) =
              (wstep ^^ k) (world (run wstep (frames (take i fs)) st))
          \<and> (k < 5 \<longrightarrow> accumulator (run wstep (frames (take (Suc i) fs)) st) < fixedTimestep)"
  proof (intro allI impI)
    fix i assume i: "i < length fs"
    have "run wstep (frames (take (Suc i) fs)) st =
        frame wstep (fst (fs ! i)) (snd (fs ! i)) (run wstep (frames (take i fs)) st)"
      using i by (simp add: frames_take frames_nth run_snoc)
    then show "\<exists>k\<le>5.
            world_steps (run wstep (frames (take (Suc i) fs)) st) =
              world_steps (run wstep (frames (take i fs)) st) + k
          \<and> world (run wstep (frames (take (Suc i) fs)) st) =
              (wstep ^^ k) (world (run wstep (frames (take i fs)) st))
          \<and> (k < 5 \<longrightarrow> accumulator (run wstep (frames (take (Suc i) fs)) st) < fixedTimestep)"
      using frame_step_facts by simp
  qed
  note w = world_run_frames [of st wstep fs]
  have 4: "(\<forall>i<length fs. \<not> cap_hit wstep (frames fs ! i) (run wstep (frames (take i fs)) st)) \<longrightarrow>
          0 \<le> accumulator (run wstep (frames fs) st)
        \<and> accumulator (run wstep (frames fs) st) < fixedTimestep"
  proof
    assume "\<forall>i<length fs. \<not> cap_hit wstep (frames fs ! i) (run wstep (frames (take i fs)) st)"
    then have "\<forall>i<length (frames fs). \<not> cap_hit wstep (frames fs ! i) (run wstep (take i (frames fs)) st)"
      by (simp add: frames_def take_map)
    moreover have "accumulator st < fixedTimestep"
      using assms(2) fixedTimestep_pos by simp
    ultimately have "accumulator (run wstep (frames fs) st) < fixedTimestep"
      by (intro run_uncapped)
    moreover have "0 \<le> accumulator (run wstep (frames fs) st)"
      using assms(1) a0 by (intro run_nonneg) (simp_all add: sample_frames)
    ultimately show "0 \<le> accumulator (run wstep (frames fs) st)
        \<and> accumulator (run wstep (frames fs) st) < fixedTimestep"
      by simp
  qed
  have 5: "\<forall>i\<le>length fs. 0 \<le> accumulator (run wstep (frames (take i fs)) st)"
  proof (intro allI impI)
    fix i
    have "\<forall>(delta, now) \<in> set (take i fs). 0 \<le> delta"
      using assms(1) by (meson in_set_takeD)
    then show "0 \<le> accumulator (run wstep (frames (take i fs)) st)"
      using a0 by (intro run_nonneg) (simp_all add: sample_frames)
  qed
  show ?thesis
    using 1 w 3 4 5 by blast
qed

text \<open>
  Two frames from the initial state, with the samples nearest to 0.05 and 0.04: three
  steps, then two; neither hits the cap, and the accumulator ends below the step.
\<close>

theorem frames_accumulator_witness:
  "list_all (\<lambda>(delta, now). 0 \<le> delta) [(rnd64 (5 / 100), 16), (rnd64 (4 / 100), 32)]
   \<and> accumulator (init 0) = 0
   \<and> accumulator (run id (frames (take 0 [(rnd64 (5 / 100), 16), (rnd64 (4 / 100), 32)])) (init 0))
       + fst ([(rnd64 (5 / 100), 16), (rnd64 (4 / 100), 32 :: real)] ! 0) < 2 ^ 1023
   \<and> accumulator (run id (frames (take 1 [(rnd64 (5 / 100), 16), (rnd64 (4 / 100), 32)])) (init 0))
       + fst ([(rnd64 (5 / 100), 16), (rnd64 (4 / 100), 32 :: real)] ! 1) < 2 ^ 1023
   \<and> world_steps (run id (frames [(rnd64 (5 / 100), 16)]) (init 0)) = 3
   \<and> world_steps (run id (frames [(rnd64 (5 / 100), 16), (rnd64 (4 / 100), 32)]) (init 0)) = 5
   \<and> 0 \<le> accumulator (run id (frames [(rnd64 (5 / 100), 16), (rnd64 (4 / 100), 32)]) (init 0))
   \<and> accumulator (run id (frames [(rnd64 (5 / 100), 16), (rnd64 (4 / 100), 32)]) (init 0))
       < fixedTimestep"
proof -
  let ?fs = "[(rnd64 (5 / 100), 16), (rnd64 (4 / 100), 32)]"
  have h1: "\<forall>(delta, now) \<in> set ?fs. 0 \<le> delta"
    by (simp add: rnd64_nonneg)
  have h2: "accumulator (init 0) = 0"
    by (rule accumulator_init)
  have w0: "world_steps (run id (frames (take 0 ?fs)) (init 0)) = 0"
    by (simp add: frames_def run_def world_steps_init)
  have w1: "world_steps (run id (frames [(rnd64 (5 / 100), 16)]) (init 0)) = 3"
    by (simp add: frames_def run_def world_steps_frame world_steps_init accumulator_init
        add64_def rnd_at loop_50ms)
  have w2: "world_steps (run id (frames ?fs) (init 0)) = 5"
    by (simp add: frames_def run_def world_steps_frame accumulator_frame world_steps_init
        accumulator_init add64_def rnd_at loop_50ms loop_40ms)
  have c0: "\<not> cap_hit id (frames ?fs ! 0) (run id (frames (take 0 ?fs)) (init 0))"
    using w0 w1 by (intro few_steps_no_cap_hit) (simp add: frames_def run_def)
  have c1: "\<not> cap_hit id (frames ?fs ! 1) (run id (frames (take 1 ?fs)) (init 0))"
    using w1 w2 by (intro few_steps_no_cap_hit) (simp add: frames_def run_def)
  have h3: "\<forall>i<length ?fs. \<not> cap_hit id (frames ?fs ! i) (run id (frames (take i ?fs)) (init 0))"
  proof (intro allI impI)
    fix i assume "i < length ?fs"
    then have "i = 0 \<or> i = 1"
      by auto
    then show "\<not> cap_hit id (frames ?fs ! i) (run id (frames (take i ?fs)) (init 0))"
      using c0 c1 by blast
  qed
  have a0: "accumulator (run id (frames (take 0 ?fs)) (init 0)) + fst (?fs ! 0) < 2 ^ 1023"
    by (simp add: frames_def run_def accumulator_init rnd_at)
  have a1: "accumulator (run id (frames (take 1 ?fs)) (init 0)) + fst (?fs ! 1) < 2 ^ 1023"
    by (simp add: frames_def run_def accumulator_frame accumulator_init add64_def rnd_at
        loop_50ms)
  have h4: "\<forall>i<length ?fs.
      accumulator (run id (frames (take i ?fs)) (init 0)) + fst (?fs ! i) < 2 ^ 1023"
  proof (intro allI impI)
    fix i assume "i < length ?fs"
    then have "i = 0 \<or> i = 1"
      by auto
    then show "accumulator (run id (frames (take i ?fs)) (init 0)) + fst (?fs ! i) < 2 ^ 1023"
      using a0 a1 by blast
  qed
  have "0 \<le> accumulator (run id (frames ?fs) (init 0))
        \<and> accumulator (run id (frames ?fs) (init 0)) < fixedTimestep"
    using frames_accumulator [OF h1 h2 h4] h3 by blast
  then show ?thesis
    using h2 w1 w2 a0 a1 by (simp add: rnd64_nonneg)
qed

text \<open>
  The claim as stated fails on eight frames of 14 ms. The samples add up to seven
  steps, whether they are added exactly, as decimals or in binary64; no frame makes
  more than one step, nothing is kept back at the end, and six steps are made.
\<close>

theorem accumulator_accounting_counterexample:
  "accumulator (init 0) = 0
   \<and> list_all (\<lambda>(delta, now). 0 \<le> delta) (replicate 8 (rnd64 (14 / 1000), 0))
   \<and> map (\<lambda>i. world_steps (run id (frames (replicate i (rnd64 (14 / 1000), 0))) (init 0)))
        [0, 1, 2, 3, 4, 5, 6, 7, 8] = [0, 0, 1, 2, 3, 4, 5, 6, 6]
   \<and> accumulator (run id (frames (replicate 8 (rnd64 (14 / 1000), 0))) (init 0)) < fixedTimestep
   \<and> backlog (run id (frames (replicate 8 (rnd64 (14 / 1000), 0))) (init 0)) = 0
   \<and> \<lfloor>sum_list (map fst (replicate 8 (rnd64 (14 / 1000), 0 :: real))) / fixedTimestep\<rfloor> = 7
   \<and> \<lfloor>8 * (14 / 1000) / (16 / 1000 :: real)\<rfloor> = 7
   \<and> \<lfloor>div64 (foldl add64 0 (replicate 8 (rnd64 (14 / 1000)))) fixedTimestep\<rfloor> = 7
   \<and> int (world_steps (run id (frames (replicate 8 (rnd64 (14 / 1000), 0))) (init 0)))
        - int (world_steps (init 0))
      \<noteq> \<lfloor>sum_list (map fst (replicate 8 (rnd64 (14 / 1000), 0 :: real))) / fixedTimestep\<rfloor>
        - backlog (run id (frames (replicate 8 (rnd64 (14 / 1000), 0))) (init 0))"
  by (simp add: frames_def run_def eval_nat_numeral world_steps_frame accumulator_frame
      world_steps_init accumulator_init backlog_def add64_def div64_def rnd_at
      fixedTimestep_val loop_14ms_1 loop_14ms_2 loop_14ms_3 loop_14ms_4 loop_14ms_5 loop_14ms_6 loop_14ms_7
      loop_14ms_8)

text \<open>
  Claim C2. One invocation of \<open>frame\<close> makes at most five \<^verbatim>\<open>world.step()\<close> calls,
  whatever the state, and so whatever the accumulator holds, at entry: the world it
  leaves is the \<open>k\<close>-fold step of the world it found, for some \<open>k \<le> 5\<close>.
\<close>

theorem frame_step_cap:
  "\<exists>k\<le>5. world_steps (frame wstep delta now st) = world_steps st + k
         \<and> world (frame wstep delta now st) = (wstep ^^ k) (world st)"
proof -
  have "steps_due 0 (add64 (accumulator st) delta) \<le> 5"
    using steps_due_le [of 0] by simp
  then show ?thesis
    using world_steps_frame world_frame by blast
qed

text \<open>
  Claim C3, as amended. A call of \<open>update\<close> counts one frame. If \<open>now\<close> is at least the
  binary64 sum of the window start and 500, the rate becomes \<^verbatim>\<open>Math.round\<close> of the
  binary64 quotient of \<open>frames * 1000\<close> by the binary64 difference \<open>now - lastTime\<close>, with
  the frame of this call included; the window starts again at \<open>now\<close> with a count of 0, and
  the new rate is returned. Otherwise the rate stays and is returned as it was. So calls
  at times that all lie below that sum return the same value each. The test agrees with
  \<open>500 \<le> now - lastTime\<close> up to the one rounding of the sum: it holds whenever the
  elapsed time is at least 500 plus \<open>u64 * \<bar>lastTime + 500\<bar> + tiny64\<close>, and only when it is
  at least 500 less that much. The timestamps and the count are in the range in which
  the model follows the code.
\<close>

theorem update_contract:
  assumes "frameCount t + length nows < 2 ^ 53" and "\<bar>lastTime t\<bar> \<le> 2 ^ 53"
    and "\<bar>now\<bar> \<le> 2 ^ 53"
  shows "update now t =
     (if add64 (lastTime t) 500 \<le> now
      then (round (div64 (mul64 (real (frameCount t + 1)) 1000) (sub64 now (lastTime t))),
            \<lparr>fps = round (div64 (mul64 (real (frameCount t + 1)) 1000) (sub64 now (lastTime t))),
             frameCount = 0, lastTime = now\<rparr>)
      else (fps t, t\<lparr>frameCount := frameCount t + 1\<rparr>))
   \<and> (add64 (lastTime t) 500 \<le> now \<longrightarrow>
        500 - (u64 * \<bar>lastTime t + 500\<bar> + tiny64) \<le> now - lastTime t)
   \<and> (500 + (u64 * \<bar>lastTime t + 500\<bar> + tiny64) \<le> now - lastTime t \<longrightarrow>
        add64 (lastTime t) 500 \<le> now)
   \<and> ((\<forall>now' \<in> set nows. now' < add64 (lastTime t) 500) \<longrightarrow>
        fst (updates nows t) = replicate (length nows) (fps t)
      \<and> snd (updates nows t) = t\<lparr>frameCount := frameCount t + length nows\<rparr>)"
proof -
  have 1: "update now t =
     (if add64 (lastTime t) 500 \<le> now
      then (round (div64 (mul64 (real (frameCount t + 1)) 1000) (sub64 now (lastTime t))),
            \<lparr>fps = round (div64 (mul64 (real (frameCount t + 1)) 1000) (sub64 now (lastTime t))),
             frameCount = 0, lastTime = now\<rparr>)
      else (fps t, t\<lparr>frameCount := frameCount t + 1\<rparr>))"
    by (auto simp: update_def Let_def)
  have e: "\<bar>add64 (lastTime t) 500 - (lastTime t + 500)\<bar> \<le> u64 * \<bar>lastTime t + 500\<bar> + tiny64"
    using rnd64_err [of "lastTime t + 500"] by (simp add: add64_def)
  have 2: "add64 (lastTime t) 500 \<le> now \<longrightarrow>
        500 - (u64 * \<bar>lastTime t + 500\<bar> + tiny64) \<le> now - lastTime t"
    using e by linarith
  have 3: "500 + (u64 * \<bar>lastTime t + 500\<bar> + tiny64) \<le> now - lastTime t \<longrightarrow>
        add64 (lastTime t) 500 \<le> now"
    using e by linarith
  have 4: "(\<forall>now' \<in> set nows. now' < add64 (lastTime t) 500) \<longrightarrow>
        fst (updates nows t) = replicate (length nows) (fps t)
      \<and> snd (updates nows t) = t\<lparr>frameCount := frameCount t + length nows\<rparr>"
  proof (induction nows arbitrary: t)
    case Nil
    show ?case by simp
  next
    case (Cons a nows)
    show ?case
    proof
      assume h: "\<forall>now' \<in> set (a # nows). now' < add64 (lastTime t) 500"
      then have u: "update a t = (fps t, t\<lparr>frameCount := frameCount t + 1\<rparr>)"
        by (simp add: update_def Let_def)
      have "\<forall>now' \<in> set nows. now' < add64 (lastTime (t\<lparr>frameCount := frameCount t + 1\<rparr>)) 500"
        using h by simp
      then have "fst (updates nows (t\<lparr>frameCount := frameCount t + 1\<rparr>)) = replicate (length nows) (fps t)
        \<and> snd (updates nows (t\<lparr>frameCount := frameCount t + 1\<rparr>)) = t\<lparr>frameCount := frameCount t + 1 + length nows\<rparr>"
        using Cons.IH [of "t\<lparr>frameCount := frameCount t + 1\<rparr>"] by simp
      then show "fst (updates (a # nows) t) = replicate (length (a # nows)) (fps t)
        \<and> snd (updates (a # nows) t) = t\<lparr>frameCount := frameCount t + length (a # nows)\<rparr>"
        by (simp add: u split_beta)
    qed
  qed
  show ?thesis
    using 1 2 3 4 by blast
qed

theorem update_contract_witness:
  "update 1600 \<lparr>fps = 60, frameCount = 3, lastTime = 1000\<rparr>
     = (7, \<lparr>fps = 7, frameCount = 0, lastTime = 1600\<rparr>)
   \<and> add64 (lastTime \<lparr>fps = 60, frameCount = 3, lastTime = 1000\<rparr>) 500 \<le> 1600
   \<and> 500 + (u64 * \<bar>lastTime \<lparr>fps = 60, frameCount = 3, lastTime = 1000\<rparr> + 500\<bar> + tiny64)
       \<le> 1600 - lastTime \<lparr>fps = 60, frameCount = 3, lastTime = 1000\<rparr>
   \<and> update 1200 \<lparr>fps = 60, frameCount = 3, lastTime = 1000\<rparr>
     = (60, \<lparr>fps = 60, frameCount = 4, lastTime = 1000\<rparr>)
   \<and> list_all (\<lambda>now'. now' < add64 (lastTime \<lparr>fps = 60, frameCount = 3, lastTime = 1000\<rparr>) 500)
        [1100, 1200]
   \<and> fst (updates [1100, 1200] \<lparr>fps = 60, frameCount = 3, lastTime = 1000\<rparr>) = [60, 60]"
proof -
  let ?t = "\<lparr>fps = 60, frameCount = 3, lastTime = 1000\<rparr>"
  have h1: "frameCount ?t + length [1100, 1200 :: real] < 2 ^ 53"
    by simp
  have h1': "frameCount ?t + length ([] :: real list) < 2 ^ 53"
    by simp
  have h2: "\<bar>lastTime ?t\<bar> \<le> 2 ^ 53"
    by simp
  have h3: "\<bar>1600 :: real\<bar> \<le> 2 ^ 53"
    by simp
  have h4: "\<bar>1200 :: real\<bar> \<le> 2 ^ 53"
    by simp
  have "u64 * 1500 \<le> 1 / 100 * 1500"
    using u64_bounds(2) by (intro mult_right_mono) simp_all
  moreover have "tiny64 \<le> 1"
    using u64_bounds(4) by (simp add: fixedTimestep_val)
  ultimately have g: "500 + (u64 * \<bar>lastTime ?t + 500\<bar> + tiny64) \<le> 1600 - lastTime ?t"
    by simp
  show ?thesis
    using g update_contract [OF h1 h2 h3] update_contract [OF h1' h2 h4]
    by (simp add: numeral_2_eq_2 add64_def sub64_def mul64_def div64_def rnd_at round_def)
qed

text \<open>
  The claim as stated fails at the edge of the window and at a tie of the quotient.
  With the window started at 3711.4 and the clock at 4211.4, less than 500 ms have
  passed, in exact and in binary64 subtraction alike, and the rate is computed anew
  all the same. With 5 frames at 3333.3333333333335 ms the exact quotient rounds to 1
  and the rate becomes 2.
\<close>

theorem update_contract_counterexample:
  "rnd64 (42114 / 10) - rnd64 (37114 / 10) < 500
   \<and> sub64 (rnd64 (42114 / 10)) (rnd64 (37114 / 10)) < 500
   \<and> update (rnd64 (42114 / 10)) \<lparr>fps = 0, frameCount = 37, lastTime = rnd64 (37114 / 10)\<rparr>
       = (76, \<lparr>fps = 76, frameCount = 0, lastTime = rnd64 (42114 / 10)\<rparr>)
   \<and> fst (update (rnd64 (33333333333333335 / 10000000000000))
             \<lparr>fps = 0, frameCount = 4, lastTime = 0\<rparr>) = 2
   \<and> round (5 * 1000 / rnd64 (33333333333333335 / 10000000000000)) = 1"
  by (simp add: update_def Let_def add64_def sub64_def mul64_def div64_def rnd_at round_def)



text \<open>
  Claim C5. In every invocation of \<open>frame\<close> the calls are, in this order: the steps of the
  loop (at most five, possibly none), then for each pair of \<open>cubes\<close> in turn one copy of the
  position and one of the quaternion, then \<^verbatim>\<open>render\<close>. Afterwards the mesh of every
  pair has the translation and the rotation that its body has in the world after the
  steps, and what was drawn is the scene with those meshes. The meshes of distinct pairs
  are distinct objects, which holds in every state of a run from the initial state
  (lemma \<open>distinct_run_init\<close>).
\<close>

theorem frame_sync_then_render:
  "\<exists>k\<le>5.
      calls (frame wstep delta now st) =
        calls st @ replicate k WorldStep @ sync_calls (cubes st) @ [Render]
    \<and> world (frame wstep delta now st) = (wstep ^^ k) (world st)
    \<and> cubes (frame wstep delta now st) = cubes st
    \<and> (distinct (map mesh (cubes st)) \<longrightarrow> (\<forall>c \<in> set (cubes st).
         position (meshes (frame wstep delta now st) (mesh c)) =
           translation (bodies (world (frame wstep delta now st)) (rigidBody c))
       \<and> quaternion (meshes (frame wstep delta now st) (mesh c)) =
           rotation (bodies (world (frame wstep delta now st)) (rigidBody c))))
    \<and> canvas (frame wstep delta now st) =
        map (meshes (frame wstep delta now st)) (scene (frame wstep delta now st))"
proof -
  let ?k = "steps_due 0 (add64 (accumulator st) delta)"
  have k: "?k \<le> 5"
    using steps_due_le [of 0] by simp
  have 1: "calls (frame wstep delta now st) =
        calls st @ replicate ?k WorldStep @ sync_calls (cubes st) @ [Render]"
    by (simp add: frame_closed Let_def)
  have 2: "world (frame wstep delta now st) = (wstep ^^ ?k) (world st)"
    by (simp add: frame_closed Let_def)
  have 3: "cubes (frame wstep delta now st) = cubes st"
    by (rule cubes_frame)
  have m: "meshes (frame wstep delta now st) =
             sync_meshes ((wstep ^^ ?k) (world st)) (cubes st) (meshes st)"
    by (simp add: frame_closed Let_def)
  have 4: "distinct (map mesh (cubes st)) \<longrightarrow> (\<forall>c \<in> set (cubes st).
         position (meshes (frame wstep delta now st) (mesh c)) =
           translation (bodies (world (frame wstep delta now st)) (rigidBody c))
       \<and> quaternion (meshes (frame wstep delta now st) (mesh c)) =
           rotation (bodies (world (frame wstep delta now st)) (rigidBody c)))"
    by (simp add: m 2 sync_meshes_distinct synced_def)
  have 5: "canvas (frame wstep delta now st) =
        map (meshes (frame wstep delta now st)) (scene (frame wstep delta now st))"
    by (simp add: frame_closed Let_def)
  show ?thesis using k 1 2 3 4 5 by blast
qed

theorem frame_sync_then_render_witness:
  "distinct (map mesh (cubes (spawnCube (1 / 2) (1 / 4)
      ((init 0)\<lparr>fpsTracker := \<lparr>fps = 60, frameCount = 0, lastTime = 0\<rparr>\<rparr>))))
   \<and> position (meshes (frame id 0 16 (spawnCube (1 / 2) (1 / 4)
      ((init 0)\<lparr>fpsTracker := \<lparr>fps = 60, frameCount = 0, lastTime = 0\<rparr>\<rparr>))) 1) = (3 / 2, 15, 3 / 4)
   \<and> quaternion (meshes (frame id 0 16 (spawnCube (1 / 2) (1 / 4)
      ((init 0)\<lparr>fpsTracker := \<lparr>fps = 60, frameCount = 0, lastTime = 0\<rparr>\<rparr>))) 1) = (0, 0, 0, 1)"
proof -
  let ?s = "spawnCube (1 / 2) (1 / 4) ((init 0)\<lparr>fpsTracker := \<lparr>fps = 60, frameCount = 0, lastTime = 0\<rparr>\<rparr>)"
  have c: "cubes ?s = [\<lparr>mesh = 1, rigidBody = 1\<rparr>]"
    by (simp add: spawnCube_def init_def Let_def split_beta world_defs)
  have b: "bodies (world ?s) 1 = \<lparr>kind = Dynamic, translation = (3 / 2, 15, 3 / 4), rotation = (0, 0, 0, 1)\<rparr>"
    by (simp add: spawnCube_def init_def Let_def split_beta world_defs mul64_def
        f32_vec3_def f32_quat_def rnd_at rnd32_0)
  have h: "distinct (map mesh (cubes ?s))"
    by (simp add: c)
  obtain k where w: "world (frame id 0 16 ?s) = (id ^^ k) (world ?s)"
    and m: "\<forall>c \<in> set (cubes ?s).
         position (meshes (frame id 0 16 ?s) (mesh c)) =
           translation (bodies (world (frame id 0 16 ?s)) (rigidBody c))
       \<and> quaternion (meshes (frame id 0 16 ?s) (mesh c)) =
           rotation (bodies (world (frame id 0 16 ?s)) (rigidBody c))"
    using h frame_sync_then_render [of id 0 16 ?s] by blast
  have "world (frame id 0 16 ?s) = world ?s"
    using w by simp
  then show ?thesis
    using h m c b by simp
qed

text \<open>
  Claim C6. The sync is idempotent on the visual transforms: a second sync right after
  the first, with no step of the world between them, leaves every mesh as the first
  sync left it.
\<close>

theorem sync_idempotent:
  "meshes (sync (sync st)) = meshes (sync st)"
  by (simp add: sync_closed sync_meshes_idem)

text \<open>
  Claim C7. With the step 0.016 and the accumulator at 0, one invocation of \<open>frame\<close> with
  the sample 0.05 steps the world exactly three times and leaves approximately 0.002 in
  the accumulator: the binary64 value 0.0020000000000000018, less than \<open>10\<^sup>-\<^sup>1\<^sup>7\<close> away. The
  step and the sample are the binary64 values nearest to 0.016 and 0.05.
\<close>

theorem frame_50ms:
  "accumulator st = 0 \<Longrightarrow>
     fixedTimestep = rnd64 (16 / 1000)
   \<and> world_steps (frame wstep (rnd64 (5 / 100)) now st) = world_steps st + 3
   \<and> world (frame wstep (rnd64 (5 / 100)) now st) = (wstep ^^ 3) (world st)
   \<and> accumulator (frame wstep (rnd64 (5 / 100)) now st) = 9007199254741 / 4503599627370496
   \<and> \<bar>accumulator (frame wstep (rnd64 (5 / 100)) now st) - 2 / 1000\<bar> < 1 / 10 ^ 17"
  by (simp add: world_steps_frame accumulator_frame world_frame add64_def rnd_at loop_50ms
      fixedTimestep_val)

theorem frame_50ms_witness:
  "accumulator (init 0) = 0
   \<and> world_steps (frame id (rnd64 (5 / 100)) 16 (init 0)) = 3
   \<and> \<bar>accumulator (frame id (rnd64 (5 / 100)) 16 (init 0)) - 2 / 1000\<bar> < 1 / 10 ^ 17"
proof -
  have h: "accumulator (init 0) = 0"
    by (rule accumulator_init)
  show ?thesis
    using h frame_50ms [OF h, of id 16] by (simp add: world_steps_init)
qed

text \<open>
  Claim C8, as amended. With the step 0.016 and the accumulator at 0, one invocation of
  \<open>frame\<close> with the sample 0.2 steps the world exactly five times and leaves approximately
  \<open>0.2 - 5 * 0.016 = 0.12\<close> in the accumulator: the binary64 value 0.11999999999999995,
  less than \<open>10\<^sup>-\<^sup>1\<^sup>6\<close> away. Seven whole steps are kept back.
\<close>

theorem frame_200ms:
  "accumulator st = 0 \<Longrightarrow>
     fixedTimestep = rnd64 (16 / 1000)
   \<and> world_steps (frame wstep (rnd64 (2 / 10)) now st) = world_steps st + 5
   \<and> world (frame wstep (rnd64 (2 / 10)) now st) = (wstep ^^ 5) (world st)
   \<and> accumulator (frame wstep (rnd64 (2 / 10)) now st) = 8646911284551349 / 72057594037927936
   \<and> \<bar>accumulator (frame wstep (rnd64 (2 / 10)) now st) - 12 / 100\<bar> < 1 / 10 ^ 16
   \<and> backlog (frame wstep (rnd64 (2 / 10)) now st) = 7"
  by (simp add: world_steps_frame accumulator_frame world_frame add64_def rnd_at loop_200ms
      fixedTimestep_val backlog_def)

theorem frame_200ms_witness:
  "accumulator (init 0) = 0
   \<and> world_steps (frame id (rnd64 (2 / 10)) 16 (init 0)) = 5
   \<and> \<bar>accumulator (frame id (rnd64 (2 / 10)) 16 (init 0)) - 12 / 100\<bar> < 1 / 10 ^ 16"
proof -
  have h: "accumulator (init 0) = 0"
    by (rule accumulator_init)
  show ?thesis
    using h frame_200ms [OF h, of id 16] by (simp add: world_steps_init)
qed

text \<open>
  The claim as stated fails: what the frame leaves is neither 0.12, nor the binary64
  value nearest to 0.12, nor the value of \<^verbatim>\<open>0.2 - 5 * 0.016\<close> in binary64.
\<close>

theorem frame_200ms_counterexample:
  "accumulator (init 0) = 0
   \<and> accumulator (frame id (rnd64 (2 / 10)) 16 (init 0)) \<noteq> 12 / 100
   \<and> accumulator (frame id (rnd64 (2 / 10)) 16 (init 0)) \<noteq> rnd64 (12 / 100)
   \<and> accumulator (frame id (rnd64 (2 / 10)) 16 (init 0))
       \<noteq> sub64 (rnd64 (2 / 10)) (mul64 5 fixedTimestep)"
  by (simp add: accumulator_frame accumulator_init add64_def sub64_def mul64_def rnd_at
      loop_200ms fixedTimestep_val)

text \<open>
  Claim C9. \<open>cubes\<close> is append-only: after any run of the two callbacks from any state,
  the old list is a prefix of the new one, so its length never decreases. From the
  initial state the displayed count \<open>cubesAmount\<close> is the length of \<open>cubes\<close> after every
  run, and it never decreases when the run goes on.
\<close>

theorem cubes_append_only:
  "(\<exists>added. cubes (run wstep evs st) = cubes st @ added)
   \<and> length (cubes st) \<le> length (cubes (run wstep evs st))
   \<and> cubesAmount (run wstep evs (init t0)) = length (cubes (run wstep evs (init t0)))
   \<and> cubesAmount (run wstep evs (init t0)) \<le> cubesAmount (run wstep (evs @ evs') (init t0))"
proof -
  have a: "\<exists>added. cubes (run wstep evs st) = cubes st @ added"
    by (rule cubes_run)
  then have b: "length (cubes st) \<le> length (cubes (run wstep evs st))"
    by auto
  have c: "\<And>es. cubesAmount (run wstep es (init t0)) = length (cubes (run wstep es (init t0)))"
    by (simp add: cubesAmount_run cubesAmount_init)
  obtain ys where "cubes (run wstep evs' (run wstep evs (init t0))) = cubes (run wstep evs (init t0)) @ ys"
    using cubes_run by blast
  then have "length (cubes (run wstep evs (init t0))) \<le> length (cubes (run wstep (evs @ evs') (init t0)))"
    by (simp add: run_append)
  then have d: "cubesAmount (run wstep evs (init t0)) \<le> cubesAmount (run wstep (evs @ evs') (init t0))"
    by (simp only: c)
  show ?thesis using a b c d by blast
qed

text \<open>
  Claim C10. When the rate of the tracker is at most 50, \<open>spawnCube\<close> returns the state
  it was given: the scene, the mesh store, the physics world with its bodies and
  colliders, \<open>cubes\<close> and the displayed count are all as before.
\<close>

theorem spawnCube_gate_closed:
  "fps (fpsTracker st) \<le> 50 \<Longrightarrow> spawnCube r1 r2 st = st"
  by (simp add: spawnCube_def)

theorem spawnCube_gate_closed_witness:
  "fps (fpsTracker (init 0)) \<le> 50 \<and> spawnCube (1 / 2) (1 / 4) (init 0) = init 0"
proof -
  have h: "fps (fpsTracker (init 0)) \<le> 50"
    by (simp add: init_def Let_def split_beta)
  show ?thesis
    using h spawnCube_gate_closed [OF h, of "1 / 2" "1 / 4"] by simp
qed

end
